theory Spec2Isabelle
  imports Main "HOL-Library.Sublist" "HOL-Library.AList"
begin

section \<open>The report-generation route\<close>

text \<open>
  The development embeds the handler \<^verbatim>\<open>POST\<close> of the report-generation route
  together with the three provider adapters \<^verbatim>\<open>generateWithGemini\<close>,
  \<^verbatim>\<open>generateWithOpenAI\<close> and \<^verbatim>\<open>generateWithAnthropic\<close>.

  What lies outside the file is a parameter of the embedding: the configuration object
  \<^verbatim>\<open>CONFIG\<close>, the rate limiter and the three provider clients. A call of a
  collaborator is recorded in a trace of events, so that "no adapter was invoked" and
  "the limiter was never consulted" are statements about that trace. An exception is a
  value of type \<open>thrown\<close>.

  The handler is embedded twice. \<open>POST\<close> is the handler in a runtime where every append to
  the two log files succeeds and the response can be constructed; the appends are then
  without influence on what the handler returns and are left out. \<open>POST_logged\<close> takes the
  runtime as a further parameter and has each append where the source has it, so that an
  append that throws is a branch of the embedding; the two agree when every append
  succeeds. Console output and the time measurements are left out of both.
\<close>

subsection \<open>JSON values\<close>

text \<open>
  Texts handled by the route (request fields, prompts, completions) are \<open>string\<close>s. The
  strings inside a parsed JSON document are lists of UTF-16 code units, because an escape
  may denote a code unit above 255, which is no 8-bit character. An
  object is the list of its own properties in creation order; \<open>set_property\<close> is the
  assignment \<^verbatim>\<open>obj[k] = v\<close>: it replaces the value of an existing property where
  it stands and appends a new property otherwise. (The special enumeration order of
  integer-like keys is not modelled.)
\<close>

type_synonym jsstring = "nat list"

definition units :: "string \<Rightarrow> jsstring" where
  "units s = map of_char s"

datatype json =
    JNull
  | JBool bool
  | JNumber string
  | JString jsstring
  | JArray "json list"
  | JObject "(jsstring \<times> json) list"

definition set_property :: "jsstring \<Rightarrow> json \<Rightarrow> (jsstring \<times> json) list \<Rightarrow> (jsstring \<times> json) list" where
  "set_property k v props = AList.update k v props"

definition get_property :: "(jsstring \<times> json) list \<Rightarrow> jsstring \<Rightarrow> json option" where
  "get_property props k = map_of props k"


subsection \<open>\<^verbatim>\<open>JSON.parse\<close>\<close>

text \<open>
  The parser follows the JSON grammar of ECMA-404: a lexer produces the tokens, a pushdown
  automaton with an explicit stack of open containers consumes them. A number keeps its
  literal text. A repeated key of an object overwrites the earlier value, as
  \<^verbatim>\<open>JSON.parse\<close> does. \<open>None\<close> is the \<^verbatim>\<open>SyntaxError\<close>.
\<close>

datatype token =
    TLBrace | TRBrace | TLBracket | TRBracket | TColon | TComma
  | TString jsstring | TNumber string | TTrue | TFalse | TNull

definition is_ws :: "char \<Rightarrow> bool" where
  "is_ws c = (c = CHR '' '' \<or> c = CHR 0x09 \<or> c = CHR 0x0A \<or> c = CHR 0x0D)"

definition is_digit :: "char \<Rightarrow> bool" where
  "is_digit c = (c \<in> set ''0123456789'')"

definition hex_value :: "char \<Rightarrow> nat option" where
  "hex_value c =
     (if is_digit c then Some (of_char c - 48)
      else if c \<in> set ''abcdef'' then Some (of_char c - 87)
      else if c \<in> set ''ABCDEF'' then Some (of_char c - 55)
      else None)"

definition hex4 :: "char \<Rightarrow> char \<Rightarrow> char \<Rightarrow> char \<Rightarrow> nat option" where
  "hex4 a b c d =
     (case (hex_value a, hex_value b, hex_value c, hex_value d) of
        (Some h1, Some h2, Some h3, Some h4) \<Rightarrow> Some (((h1 * 16 + h2) * 16 + h3) * 16 + h4)
      | _ \<Rightarrow> None)"

definition escape :: "char \<Rightarrow> nat option" where
  "escape e =
     (if e = CHR 0x22 then Some 34
      else if e = CHR 0x5C then Some 92
      else if e = CHR ''/'' then Some 47
      else if e = CHR ''b'' then Some 8
      else if e = CHR ''f'' then Some 12
      else if e = CHR ''n'' then Some 10
      else if e = CHR ''r'' then Some 13
      else if e = CHR ''t'' then Some 9
      else None)"

fun lex_string :: "string \<Rightarrow> jsstring \<Rightarrow> (jsstring \<times> string) option" where
  "lex_string [] acc = None"
| "lex_string (c # cs) acc =
     (if c = CHR 0x22 then Some (rev acc, cs)
      else if c = CHR 0x5C then
        (case cs of
           [] \<Rightarrow> None
         | e # es \<Rightarrow>
             if e = CHR ''u'' then
               (case es of
                  h1 # h2 # h3 # h4 # rest \<Rightarrow>
                    (case hex4 h1 h2 h3 h4 of
                       None \<Rightarrow> None
                     | Some n \<Rightarrow> lex_string rest (n # acc))
                | _ \<Rightarrow> None)
             else
               (case escape e of
                  None \<Rightarrow> None
                | Some n \<Rightarrow> lex_string es (n # acc)))
      else if (of_char c :: nat) < 32 then None
      else lex_string cs (of_char c # acc))"

definition digits1 :: "string \<Rightarrow> (string \<times> string) option" where
  "digits1 cs = (let ds = takeWhile is_digit cs in
                 if ds = [] then None else Some (ds, dropWhile is_digit cs))"

definition lex_int :: "string \<Rightarrow> (string \<times> string) option" where
  "lex_int cs =
     (case cs of
        [] \<Rightarrow> None
      | c # rest \<Rightarrow> if c = CHR ''0'' then Some ([c], rest) else digits1 cs)"

definition lex_frac :: "string \<Rightarrow> (string \<times> string) option" where
  "lex_frac cs =
     (case cs of
        c # rest \<Rightarrow>
          if c = CHR ''.'' then map_option (\<lambda>(ds, r). (c # ds, r)) (digits1 rest)
          else Some ([], cs)
      | [] \<Rightarrow> Some ([], cs))"

definition lex_sign :: "string \<Rightarrow> string \<times> string" where
  "lex_sign cs =
     (case cs of
        c # rest \<Rightarrow> if c = CHR ''+'' \<or> c = CHR ''-'' then ([c], rest) else ([], cs)
      | [] \<Rightarrow> ([], cs))"

definition lex_exp :: "string \<Rightarrow> (string \<times> string) option" where
  "lex_exp cs =
     (case cs of
        c # rest \<Rightarrow>
          if c = CHR ''e'' \<or> c = CHR ''E'' then
            (let (sg, r) = lex_sign rest
             in map_option (\<lambda>(ds, r'). (c # sg @ ds, r')) (digits1 r))
          else Some ([], cs)
      | [] \<Rightarrow> Some ([], cs))"

definition lex_number :: "string \<Rightarrow> (string \<times> string) option" where
  "lex_number cs =
     (let (minus, r0) = (case cs of c # rest \<Rightarrow> if c = CHR ''-'' then ([c], rest) else ([], cs)
                                   | [] \<Rightarrow> ([], cs))
      in case lex_int r0 of
           None \<Rightarrow> None
         | Some (i, r1) \<Rightarrow>
             (case lex_frac r1 of
                None \<Rightarrow> None
              | Some (f, r2) \<Rightarrow>
                  (case lex_exp r2 of
                     None \<Rightarrow> None
                   | Some (e, r3) \<Rightarrow> Some (minus @ i @ f @ e, r3))))"

fun strip_prefix :: "string \<Rightarrow> string \<Rightarrow> string option" where
  "strip_prefix [] cs = Some cs"
| "strip_prefix (p # ps) [] = None"
| "strip_prefix (p # ps) (c # cs) = (if p = c then strip_prefix ps cs else None)"

text \<open>The lexer continues on what a token leaves of the input. Every token consumes at least
  one character; the lemmas that say so are what the termination of the lexer rests on.\<close>

lemma lex_string_shorter: "lex_string cs acc = Some (s, rest) \<Longrightarrow> length rest < length cs"
proof (induction cs acc rule: lex_string.induct)
  case (1 acc)
  then show ?case by simp
next
  case (2 c cs acc)
  show ?case
  proof (cases "c = CHR 0x22")
    case True
    with "2.prems" show ?thesis by simp
  next
    case nq: False
    show ?thesis
    proof (cases "c = CHR 0x5C")
      case False
      with nq "2.prems" "2.IH"(3) show ?thesis
        by (auto split: if_splits)
    next
      case bs: True
      show ?thesis
      proof (cases cs)
        case Nil
        with nq bs "2.prems" show ?thesis by simp
      next
        case (Cons e es)
        show ?thesis
        proof (cases "e = CHR ''u''")
          case False
          with nq bs Cons "2.prems" "2.IH"(2) show ?thesis
            by (fastforce split: option.splits)
        next
          case True
          with nq bs Cons "2.prems" "2.IH"(1) show ?thesis
            by (fastforce split: option.splits list.splits)
        qed
      qed
    qed
  qed
qed

lemma digits1_shorter: "digits1 cs = Some (ds, rest) \<Longrightarrow> length rest < length cs"
  unfolding digits1_def Let_def
  by (cases cs) (auto split: if_splits simp: length_dropWhile_le less_Suc_eq_le)

lemma strip_prefix_shorter: "strip_prefix ps cs = Some rest \<Longrightarrow> length rest + length ps = length cs"
  by (induction ps cs rule: strip_prefix.induct) (auto split: if_splits)

lemma lex_int_shorter: "lex_int cs = Some (ds, rest) \<Longrightarrow> length rest < length cs"
  unfolding lex_int_def
  by (auto split: list.splits if_splits dest: digits1_shorter)

lemma lex_frac_shorter: "lex_frac cs = Some (ds, rest) \<Longrightarrow> length rest \<le> length cs"
  unfolding lex_frac_def
  by (auto split: list.splits if_splits dest!: digits1_shorter)

lemma lex_sign_shorter: "lex_sign cs = (sg, rest) \<Longrightarrow> length rest \<le> length cs"
  unfolding lex_sign_def
  by (auto split: list.splits if_splits)

lemma lex_exp_shorter: "lex_exp cs = Some (ds, rest) \<Longrightarrow> length rest \<le> length cs"
  unfolding lex_exp_def
  by (auto split: list.splits if_splits prod.splits dest!: digits1_shorter lex_sign_shorter)

lemma lex_number_shorter:
  assumes "lex_number cs = Some (n, rest)"
  shows "length rest < length cs"
proof -
  define r0 where "r0 = (case cs of c # rest \<Rightarrow> if c = CHR ''-'' then rest else cs | [] \<Rightarrow> cs)"
  have r0: "length r0 \<le> length cs"
    by (auto simp: r0_def split: list.splits)
  from assms obtain i r1 f r2 e where
    "lex_int r0 = Some (i, r1)" "lex_frac r1 = Some (f, r2)" "lex_exp r2 = Some (e, rest)"
    unfolding lex_number_def r0_def
    by (auto split: list.splits if_splits option.splits)
  with r0 show ?thesis
    by (auto dest!: lex_int_shorter lex_frac_shorter lex_exp_shorter)
qed


function lex :: "string \<Rightarrow> token list option" where
  "lex [] = Some []"
| "lex (c # cs) =
     (if is_ws c then lex cs
      else if c = CHR ''{'' then map_option ((#) TLBrace) (lex cs)
      else if c = CHR ''}'' then map_option ((#) TRBrace) (lex cs)
      else if c = CHR ''['' then map_option ((#) TLBracket) (lex cs)
      else if c = CHR '']'' then map_option ((#) TRBracket) (lex cs)
      else if c = CHR '':'' then map_option ((#) TColon) (lex cs)
      else if c = CHR '','' then map_option ((#) TComma) (lex cs)
      else if c = CHR 0x22 then
        (case lex_string cs [] of
           None \<Rightarrow> None
         | Some (s, rest) \<Rightarrow> map_option ((#) (TString s)) (lex rest))
      else if c = CHR ''-'' \<or> is_digit c then
        (case lex_number (c # cs) of
           None \<Rightarrow> None
         | Some (n, rest) \<Rightarrow> map_option ((#) (TNumber n)) (lex rest))
      else if c = CHR ''t'' then
        (case strip_prefix ''rue'' cs of
           None \<Rightarrow> None
         | Some rest \<Rightarrow> map_option ((#) TTrue) (lex rest))
      else if c = CHR ''f'' then
        (case strip_prefix ''alse'' cs of
           None \<Rightarrow> None
         | Some rest \<Rightarrow> map_option ((#) TFalse) (lex rest))
      else if c = CHR ''n'' then
        (case strip_prefix ''ull'' cs of
           None \<Rightarrow> None
         | Some rest \<Rightarrow> map_option ((#) TNull) (lex rest))
      else None)"
  by pat_completeness auto
termination
  apply (relation "measure length")
  apply simp_all
  subgoal for c cs x2 x y using lex_string_shorter[of cs "[]" x y] by simp
  subgoal for c cs x2 x y using lex_number_shorter[of "c # cs" x y] by simp
  subgoal for c cs x2 using strip_prefix_shorter[of "''rue''" cs x2] by simp
  subgoal for c cs x2 using strip_prefix_shorter[of "''alse''" cs x2] by simp
  subgoal for c cs x2 using strip_prefix_shorter[of "''ull''" cs x2] by simp
  done

datatype frame =
    InArray "json list"
  | InObject "(jsstring \<times> json) list"
  | InMember "(jsstring \<times> json) list" jsstring

datatype phase = Value | ValueOrEnd | KeyOrEnd | Key | Colon | CommaOrEnd | Finished json

type_synonym pstate = "frame list \<times> phase"

fun complete :: "json \<Rightarrow> frame list \<Rightarrow> pstate option" where
  "complete v [] = Some ([], Finished v)"
| "complete v (InArray xs # st) = Some (InArray (v # xs) # st, CommaOrEnd)"
| "complete v (InMember fs k # st) = Some (InObject (set_property k v fs) # st, CommaOrEnd)"
| "complete v (InObject fs # st) = None"

fun begin_value :: "frame list \<Rightarrow> token \<Rightarrow> pstate option" where
  "begin_value st TLBrace = Some (InObject [] # st, KeyOrEnd)"
| "begin_value st TLBracket = Some (InArray [] # st, ValueOrEnd)"
| "begin_value st (TString s) = complete (JString s) st"
| "begin_value st (TNumber n) = complete (JNumber n) st"
| "begin_value st TTrue = complete (JBool True) st"
| "begin_value st TFalse = complete (JBool False) st"
| "begin_value st TNull = complete JNull st"
| "begin_value st _ = None"

fun begin_member :: "frame list \<Rightarrow> token \<Rightarrow> pstate option" where
  "begin_member (InObject fs # st) (TString k) = Some (InMember fs k # st, Colon)"
| "begin_member _ _ = None"

fun end_container :: "frame list \<Rightarrow> token \<Rightarrow> pstate option" where
  "end_container (InArray xs # st) TRBracket = complete (JArray (rev xs)) st"
| "end_container (InObject fs # st) TRBrace = complete (JObject fs) st"
| "end_container _ _ = None"

fun step :: "pstate \<Rightarrow> token \<Rightarrow> pstate option" where
  "step (st, Value) t = begin_value st t"
| "step (st, ValueOrEnd) t = (if t = TRBracket then end_container st t else begin_value st t)"
| "step (st, KeyOrEnd) t = (if t = TRBrace then end_container st t else begin_member st t)"
| "step (st, Key) t = begin_member st t"
| "step (st, Colon) t = (if t = TColon then Some (st, Value) else None)"
| "step (st, CommaOrEnd) t =
     (if t = TComma then
        (case st of
           InArray xs # _ \<Rightarrow> Some (st, Value)
         | InObject fs # _ \<Rightarrow> Some (st, Key)
         | _ \<Rightarrow> None)
      else end_container st t)"
| "step (st, Finished v) t = None"

fun run :: "pstate \<Rightarrow> token list \<Rightarrow> pstate option" where
  "run s [] = Some s"
| "run s (t # ts) = (case step s t of None \<Rightarrow> None | Some s' \<Rightarrow> run s' ts)"

definition JSON_parse :: "string \<Rightarrow> json option" where
  "JSON_parse text =
     (case lex text of
        None \<Rightarrow> None
      | Some ts \<Rightarrow>
          (case run ([], Value) ts of
             Some ([], Finished v) \<Rightarrow> Some v
           | _ \<Rightarrow> None))"


subsection \<open>Locating the document in the completion\<close>

text \<open>
  \<^verbatim>\<open>response.match(/\{[\s\S]*\}/)?.[0]\<close>: the match starts at the first opening brace
  and, the star being greedy, ends at the last closing brace after it. There is no match
  when no closing brace follows the first opening brace.
\<close>

definition json_span :: "string \<Rightarrow> string option" where
  "json_span response =
     (let from_open = dropWhile (\<lambda>c. c \<noteq> CHR ''{'') response;
          upto_close = rev (dropWhile (\<lambda>c. c \<noteq> CHR ''}'') (rev from_open))
      in if upto_close = [] then None else Some upto_close)"


subsection \<open>Request, configuration and environment\<close>

record article =
  title :: string
  url :: string
  content :: string

text \<open>
  The request body as the handler's type annotation declares it. \<open>platformModel\<close> is
  optional: the destructuring pattern gives it a default.
\<close>

record body =
  selectedResults :: "article list"
  sources :: "json list"
  prompt :: string
  platformModel :: "string option"

text \<open>
  \<^verbatim>\<open>CONFIG\<close> is imported from a module outside the file; the handler reads
  \<^verbatim>\<open>CONFIG.rateLimits.enabled\<close>, \<^verbatim>\<open>CONFIG.platforms[p].enabled\<close> and
  \<^verbatim>\<open>CONFIG.platforms[p].models[m].enabled\<close>.
\<close>

record model_config =
  model_enabled :: bool

record platform_config =
  platform_enabled :: bool
  models :: "(string \<times> model_config) list"

record config =
  rateLimits_enabled :: bool
  platforms :: "(string \<times> platform_config) list"

text \<open>
  Reading a property of a plain object: an own property, else a member inherited from
  \<^verbatim>\<open>Object.prototype\<close> (a function or object, hence truthy, with no
  \<^verbatim>\<open>enabled\<close> field), else \<^verbatim>\<open>undefined\<close>.
\<close>

datatype 'a slot = Undefined | Inherited | Own 'a

definition object_prototype_names :: "string list" where
  "object_prototype_names =
     [''constructor'', ''hasOwnProperty'', ''isPrototypeOf'', ''propertyIsEnumerable'',
      ''toLocaleString'', ''toString'', ''valueOf'', ''__proto__'', ''__defineGetter__'',
      ''__defineSetter__'', ''__lookupGetter__'', ''__lookupSetter__'']"

definition js_get :: "(string \<times> 'a) list \<Rightarrow> string \<Rightarrow> 'a slot" where
  "js_get obj k =
     (case map_of obj k of
        Some v \<Rightarrow> Own v
      | None \<Rightarrow> if k \<in> set object_prototype_names then Inherited else Undefined)"

text \<open>
  \<^verbatim>\<open>undefined\<close> used as a property key or inside a template literal is the text
  "undefined".
\<close>

definition js_string :: "string option \<Rightarrow> string" where
  "js_string v = (case v of None \<Rightarrow> ''undefined'' | Some s \<Rightarrow> s)"

datatype gemini_model = geminiFlashThinkingModel | geminiModel | geminiFlashModel

datatype event =
    LimitCall
  | GeminiCall gemini_model string
  | OpenAICall string string
  | AnthropicCall string string

datatype thrown =
    BodyNotJson
  | LimiterError
  | ProviderError
  | InvalidCombination
  | NoResponseFromModel
  | AppendError

text \<open>
  The collaborators. \<open>None\<close> stands for a call that throws. The limiter answers with its
  \<^verbatim>\<open>success\<close> flag; the OpenAI client with the first choice's content, which may be
  \<^verbatim>\<open>null\<close>; the Anthropic client with the first block's text, which may be absent.
\<close>

record env =
  CONFIG :: config
  limit :: "bool option"
  generateContent :: "gemini_model \<Rightarrow> string \<Rightarrow> string option"
  chat_completions_create :: "string \<Rightarrow> string \<Rightarrow> string option option"
  messages_create :: "string \<Rightarrow> string \<Rightarrow> string option option"

subsection \<open>Responses\<close>

text \<open>
  One constructor for each \<^verbatim>\<open>NextResponse.json\<close> of the handler; \<open>render\<close>
  gives the status and the value that is handed to \<^verbatim>\<open>NextResponse.json\<close> as the
  body. For a report this is the parsed document as a value; how
  \<^verbatim>\<open>JSON.stringify\<close> writes that value (a number is written from its double, keys that
  are array indices come first) is not modelled, and a number is kept as its literal text.
\<close>

datatype failure =
    TooManyRequests
  | PlatformNotEnabled string
  | ModelDoesNotExist string
  | ModelDisabled string
  | InvalidReportFormat
  | FailedToParseReportFormat
  | FailedToGenerateReport

datatype response = Report json | Failure failure

fun status :: "failure \<Rightarrow> nat" where
  "status TooManyRequests = 429"
| "status (PlatformNotEnabled p) = 400"
| "status (ModelDoesNotExist m) = 400"
| "status (ModelDisabled m) = 400"
| "status InvalidReportFormat = 500"
| "status FailedToParseReportFormat = 500"
| "status FailedToGenerateReport = 500"

fun error_message :: "failure \<Rightarrow> string" where
  "error_message TooManyRequests = ''Too many requests''"
| "error_message (PlatformNotEnabled p) = p @ '' platform is not enabled''"
| "error_message (ModelDoesNotExist m) = m @ '' model does not exist''"
| "error_message (ModelDisabled m) = m @ '' model is disabled''"
| "error_message InvalidReportFormat = ''Invalid report format''"
| "error_message FailedToParseReportFormat = ''Failed to parse report format''"
| "error_message FailedToGenerateReport = ''Failed to generate report''"

fun render :: "response \<Rightarrow> nat \<times> json" where
  "render (Report reportData) = (200, reportData)"
| "render (Failure f) = (status f, JObject [(units ''error'', JString (units (error_message f)))])"

subsection \<open>The provider adapters\<close>

definition generateWithGemini ::
  "env \<Rightarrow> string \<Rightarrow> string \<Rightarrow> (thrown + string option) \<times> event list" where
  "generateWithGemini e systemPrompt model =
     (let client =
            (if model = ''gemini-flash-thinking'' then geminiFlashThinkingModel
             else if model = ''gemini-exp'' then geminiModel
             else geminiFlashModel)
      in (case generateContent e client systemPrompt of
            None \<Rightarrow> Inl ProviderError
          | Some text \<Rightarrow> Inr (Some text),
          [GeminiCall client systemPrompt]))"

definition generateWithOpenAI ::
  "env \<Rightarrow> string \<Rightarrow> string \<Rightarrow> (thrown + string option) \<times> event list" where
  "generateWithOpenAI e systemPrompt model =
     (case chat_completions_create e model systemPrompt of
        None \<Rightarrow> Inl ProviderError
      | Some completion \<Rightarrow> Inr completion,
      [OpenAICall model systemPrompt])"

definition generateWithAnthropic ::
  "env \<Rightarrow> string \<Rightarrow> string \<Rightarrow> (thrown + string option) \<times> event list" where
  "generateWithAnthropic e systemPrompt model =
     (case messages_create e model systemPrompt of
        None \<Rightarrow> Inl ProviderError
      | Some text \<Rightarrow> Inr (Some (case text of None \<Rightarrow> [] | Some t \<Rightarrow> t)),
      [AnthropicCall model systemPrompt])"

subsection \<open>The handler\<close>

text \<open>\<^verbatim>\<open>platformModel.split('__')\<close>: the segments between the non-overlapping
  occurrences of the separator, found from left to right. The first argument collects the
  current segment in reverse.\<close>

fun split :: "string \<Rightarrow> string \<Rightarrow> string list" where
  "split seg [] = [rev seg]"
| "split seg [c] = [rev (c # seg)]"
| "split seg (c # d # cs) =
     (if c = CHR ''_'' \<and> d = CHR ''_'' then rev seg # split [] cs
      else split (c # seg) (d # cs))"

text \<open>Indexing an array: \<^verbatim>\<open>undefined\<close> past its end.\<close>

fun at_index :: "'a list \<Rightarrow> nat \<Rightarrow> 'a option" where
  "at_index [] i = None"
| "at_index (x # xs) 0 = Some x"
| "at_index (x # xs) (Suc i) = at_index xs i"

text \<open>The rate-limit block. \<open>Inr None\<close>: the handler goes on.\<close>

definition rateLimitCheck :: "env \<Rightarrow> (thrown + response option) \<times> event list" where
  "rateLimitCheck e =
     (if rateLimits_enabled (CONFIG e) then
        (case limit e of
           None \<Rightarrow> (Inl LimiterError, [LimitCall])
         | Some success \<Rightarrow>
             if \<not> success then (Inr (Some (Failure TooManyRequests)), [LimitCall])
             else (Inr None, [LimitCall]))
      else (Inr None, []))"

text \<open>The checks of the selector against \<^verbatim>\<open>CONFIG.platforms\<close>; on success the
  \<^verbatim>\<open>model\<close> segment, which the dispatch below switches on.\<close>

definition checkCatalog :: "config \<Rightarrow> string \<Rightarrow> failure + string option" where
  "checkCatalog cfg selector =
     (let platform = at_index (split [] selector) 0;
          model = at_index (split [] selector) 1
      in case js_get (platforms cfg) (js_string platform) of
           Own platformConfig \<Rightarrow>
             if \<not> platform_enabled platformConfig then
               Inl (PlatformNotEnabled (js_string platform))
             else
               (case js_get (models platformConfig) (js_string model) of
                  Undefined \<Rightarrow> Inl (ModelDoesNotExist (js_string model))
                | Inherited \<Rightarrow> Inl (ModelDisabled (js_string model))
                | Own modelConfig \<Rightarrow>
                    if \<not> model_enabled modelConfig then Inl (ModelDisabled (js_string model))
                    else Inr model)
         | _ \<Rightarrow> Inl (PlatformNotEnabled (js_string platform)))"

text \<open>\<^verbatim>\<open>Array.prototype.join\<close>.\<close>

fun js_join :: "string \<Rightarrow> string list \<Rightarrow> string" where
  "js_join sep [] = []"
| "js_join sep [x] = x"
| "js_join sep (x # y # ys) = x @ sep @ js_join sep (y # ys)"

definition render_article :: "article \<Rightarrow> string" where
  \<open>render_article a =
     ''\<newline>Title: '' @ title a @ ''\<newline>URL: '' @ url a @ ''\<newline>Content: '' @ content a @
     ''\<newline>---\<newline>''\<close>

definition prompt_opening :: string where
  \<open>prompt_opening = concat
     [''You are a research assistant tasked with creating a comprehensive report based on multiple sources. \<newline>'',
      ''The report should specifically address this request: "'']\<close>

definition prompt_guidelines :: string where
  \<open>prompt_guidelines = concat
     [''"\<newline>'',
      ''\<newline>'',
      ''Your report should:\<newline>'',
      ''1. Have a clear title that reflects the specific analysis requested\<newline>'',
      ''2. Begin with a concise executive summary\<newline>'',
      ''3. Be organized into relevant sections based on the analysis requested\<newline>'',
      ''4. Use markdown formatting for emphasis, lists, and structure\<newline>'',
      ''5. Integrate information from sources naturally without explicitly referencing them by number\<newline>'',
      ''6. Maintain objectivity while addressing the specific aspects requested in the prompt\<newline>'',
      ''7. Compare and contrast the information from each source, noting areas of consensus or points of contention. \<newline>'',
      ''8. Showcase key insights, important data, or innovative ideas.\<newline>'',
      ''\<newline>'',
      ''Here are the source articles to analyze:\<newline>'',
      ''\<newline>'']\<close>

definition prompt_format_heading :: string where
  \<open>prompt_format_heading = concat
     [''\<newline>'',
      ''\<newline>'',
      ''Format the report as a JSON object with the following structure:\<newline>'']\<close>

definition prompt_output_contract :: string where
  \<open>prompt_output_contract = concat
     [''{\<newline>'',
      ''  "title": "Report title",\<newline>'',
      ''  "summary": "Executive summary (can include markdown)",\<newline>'',
      ''  "sections": [\<newline>'',
      ''    {\<newline>'',
      ''      "title": "Section title",\<newline>'',
      ''      "content": "Section content with markdown formatting"\<newline>'',
      ''    }\<newline>'',
      ''  ]\<newline>'',
      ''}\<newline>'']\<close>

definition prompt_markdown_rules :: string where
  \<open>prompt_markdown_rules = concat
     [''\<newline>'',
      ''Use markdown formatting in the content to improve readability:\<newline>'',
      ''- Use **bold** for emphasis\<newline>'',
      ''- Use bullet points and numbered lists where appropriate\<newline>'',
      ''- Use headings and subheadings with # syntax\<newline>'',
      ''- Include code blocks if relevant\<newline>'',
      ''- Use > for quotations\<newline>'',
      ''- Use --- for horizontal rules where appropriate\<newline>'',
      ''\<newline>'']\<close>

definition prompt_ordinal_rule :: string where
  \<open>prompt_ordinal_rule =
      ''Important: Do not use phrases like "Source 1" or "According to Source 2". Instead, integrate the information naturally into the narrative or reference sources by their titles when necessary.''\<close>

definition generateSystemPrompt :: "article list \<Rightarrow> string \<Rightarrow> string" where
  "generateSystemPrompt articles userPrompt =
     prompt_opening @ userPrompt @ prompt_guidelines @
     js_join ''\<newline>'' (map render_article articles) @
     prompt_format_heading @ prompt_output_contract @ prompt_markdown_rules @
     prompt_ordinal_rule"

text \<open>The \<^verbatim>\<open>switch (model)\<close>. A \<^verbatim>\<open>case\<close> label is compared with \<^verbatim>\<open>===\<close>, so
  an \<^verbatim>\<open>undefined\<close> model reaches the default branch.\<close>

definition dispatch ::
  "env \<Rightarrow> string option \<Rightarrow> string \<Rightarrow> (thrown + string option) \<times> event list" where
  "dispatch e model systemPrompt =
     (case model of
        None \<Rightarrow> (Inl InvalidCombination, [])
      | Some m \<Rightarrow>
          if m = ''gemini-flash'' then generateWithGemini e systemPrompt ''gemini-flash''
          else if m = ''gemini-flash-thinking'' then
            generateWithGemini e systemPrompt ''gemini-flash-thinking''
          else if m = ''gemini-exp'' then generateWithGemini e systemPrompt ''gemini-exp''
          else if m = ''gpt-4o'' then generateWithOpenAI e systemPrompt ''gpt-4o''
          else if m = ''gpt-4o-mini'' then generateWithOpenAI e systemPrompt ''gpt-4o-mini''
          else if m = ''o1-mini'' then generateWithOpenAI e systemPrompt ''o1-mini''
          else if m = ''o1'' then generateWithOpenAI e systemPrompt ''o1''
          else if m = ''sonnet-3.5'' then
            generateWithAnthropic e systemPrompt ''claude-3-5-sonnet-latest''
          else if m = ''haiku-3.5'' then
            generateWithAnthropic e systemPrompt ''claude-3-5-haiku-latest''
          else (Inl InvalidCombination, []))"

text \<open>The match and \<^verbatim>\<open>JSON.parse\<close>.\<close>

definition extract_report :: "string \<Rightarrow> failure + json" where
  "extract_report response =
     (case json_span response of
        None \<Rightarrow> Inl InvalidReportFormat
      | Some jsonMatch \<Rightarrow>
          (case JSON_parse jsonMatch of
             None \<Rightarrow> Inl FailedToParseReportFormat
           | Some reportData \<Rightarrow> Inr reportData))"

text \<open>\<^verbatim>\<open>reportData.sources = sources\<close>, inside the same \<^verbatim>\<open>try\<close> as the parse. On an
  array the assignment adds a property that the serialisation does not show; on
  \<^verbatim>\<open>null\<close> and, the module being strict, on a primitive it throws a
  \<^verbatim>\<open>TypeError\<close>, which the \<^verbatim>\<open>catch\<close> of the parse answers.\<close>

definition sources_key :: jsstring where
  "sources_key = units ''sources''"

fun attach_sources :: "json \<Rightarrow> json list \<Rightarrow> failure + json" where
  "attach_sources (JObject props) srcs =
     Inr (JObject (set_property sources_key (JArray srcs) props))"
| "attach_sources (JArray xs) srcs = Inr (JArray xs)"
| "attach_sources _ srcs = Inl FailedToParseReportFormat"

text \<open>The match and the inner \<^verbatim>\<open>try\<close>, in a runtime where the append and the
  construction of the response inside that \<^verbatim>\<open>try\<close> succeed. (\<open>finish_logged\<close> below
  has the cases where they throw.)\<close>

definition finish :: "string \<Rightarrow> json list \<Rightarrow> response" where
  "finish response srcs =
     (case extract_report response of
        Inl f \<Rightarrow> Failure f
      | Inr reportData \<Rightarrow>
          (case attach_sources reportData srcs of
             Inl f \<Rightarrow> Failure f
           | Inr r \<Rightarrow> Report r))"

text \<open>The body of the outer \<^verbatim>\<open>try\<close>. \<open>None\<close> as the request is a body that
  \<^verbatim>\<open>request.json()\<close> rejects.\<close>

definition default_platformModel :: string where
  "default_platformModel = ''google-gemini-flash''"

text \<open>The destructuring of the body: the selector of the request, with the default for
  an absent \<^verbatim>\<open>platformModel\<close>.\<close>

definition selector_of :: "body \<Rightarrow> string" where
  "selector_of b = (case platformModel b of None \<Rightarrow> default_platformModel | Some s \<Rightarrow> s)"

definition POST_try :: "env \<Rightarrow> body option \<Rightarrow> (thrown + response) \<times> event list" where
  "POST_try e request =
     (case request of
        None \<Rightarrow> (Inl BodyNotJson, [])
      | Some b \<Rightarrow>
          (let selector = selector_of b
           in case rateLimitCheck e of
                (Inl err, tr) \<Rightarrow> (Inl err, tr)
              | (Inr (Some r), tr) \<Rightarrow> (Inr r, tr)
              | (Inr None, tr) \<Rightarrow>
                  (case checkCatalog (CONFIG e) selector of
                     Inl f \<Rightarrow> (Inr (Failure f), tr)
                   | Inr model \<Rightarrow>
                       (let systemPrompt = generateSystemPrompt (selectedResults b) (prompt b)
                        in case dispatch e model systemPrompt of
                             (Inl err, tr') \<Rightarrow> (Inl err, tr @ tr')
                           | (Inr None, tr') \<Rightarrow> (Inl NoResponseFromModel, tr @ tr')
                           | (Inr (Some response), tr') \<Rightarrow>
                               if response = [] then (Inl NoResponseFromModel, tr @ tr')
                               else (Inr (finish response (sources b)), tr @ tr')))))"

text \<open>The handler with its outer \<^verbatim>\<open>catch\<close>, in a runtime where the append of the
  \<^verbatim>\<open>catch\<close> succeeds: every exception of the body is answered. (\<open>POST_logged\<close> below
  has the case where that append throws.)\<close>

definition POST :: "env \<Rightarrow> body option \<Rightarrow> (thrown + response) \<times> event list" where
  "POST e request =
     (case POST_try e request of
        (Inl err, tr) \<Rightarrow> (Inr (Failure FailedToGenerateReport), tr)
      | (Inr r, tr) \<Rightarrow> (Inr r, tr))"

subsection \<open>The handler with its appends to the log files\<close>

text \<open>
  The handler appends lines to two log files with \<^verbatim>\<open>fs.appendFileSync\<close>, which throws
  when the file cannot be written. Each place of the handler that appends is a
  \<open>log_site\<close>; a request passes each of them at most once. The runtime says which appends
  succeed, and whether \<^verbatim>\<open>NextResponse.json\<close> succeeds on the report it is handed.
\<close>

datatype log_site =
    RateLimitTimeLog
  | AdapterTimeLog
  | AdapterResponseLog
  | ModelTimeLog
  | ModelResponseLog
  | OverallTimeLog
  | ErrorLog

record runtime =
  appendFileSync :: "log_site \<Rightarrow> bool"
  NextResponse_json :: "json \<Rightarrow> bool"

definition generateWithGemini_logged ::
  "runtime \<Rightarrow> env \<Rightarrow> string \<Rightarrow> string \<Rightarrow> (thrown + string option) \<times> event list" where
  "generateWithGemini_logged rt e systemPrompt model =
     (let client =
            (if model = ''gemini-flash-thinking'' then geminiFlashThinkingModel
             else if model = ''gemini-exp'' then geminiModel
             else geminiFlashModel)
      in (case generateContent e client systemPrompt of
            None \<Rightarrow> Inl ProviderError
          | Some completion \<Rightarrow>
              if \<not> appendFileSync rt AdapterTimeLog then Inl AppendError
              else Inr (Some completion),
          [GeminiCall client systemPrompt]))"

definition generateWithOpenAI_logged ::
  "runtime \<Rightarrow> env \<Rightarrow> string \<Rightarrow> string \<Rightarrow> (thrown + string option) \<times> event list" where
  "generateWithOpenAI_logged rt e systemPrompt model =
     (case chat_completions_create e model systemPrompt of
        None \<Rightarrow> Inl ProviderError
      | Some completion \<Rightarrow>
          if \<not> appendFileSync rt AdapterTimeLog then Inl AppendError
          else if \<not> appendFileSync rt AdapterResponseLog then Inl AppendError
          else Inr completion,
      [OpenAICall model systemPrompt])"

definition generateWithAnthropic_logged ::
  "runtime \<Rightarrow> env \<Rightarrow> string \<Rightarrow> string \<Rightarrow> (thrown + string option) \<times> event list" where
  "generateWithAnthropic_logged rt e systemPrompt model =
     (case messages_create e model systemPrompt of
        None \<Rightarrow> Inl ProviderError
      | Some completion \<Rightarrow>
          if \<not> appendFileSync rt AdapterTimeLog then Inl AppendError
          else if \<not> appendFileSync rt AdapterResponseLog then Inl AppendError
          else Inr (Some (case completion of None \<Rightarrow> [] | Some t \<Rightarrow> t)),
      [AnthropicCall model systemPrompt])"

definition rateLimitCheck_logged :: "runtime \<Rightarrow> env \<Rightarrow> (thrown + response option) \<times> event list" where
  "rateLimitCheck_logged rt e =
     (if rateLimits_enabled (CONFIG e) then
        (case limit e of
           None \<Rightarrow> (Inl LimiterError, [LimitCall])
         | Some success \<Rightarrow>
             if \<not> appendFileSync rt RateLimitTimeLog then (Inl AppendError, [LimitCall])
             else if \<not> success then (Inr (Some (Failure TooManyRequests)), [LimitCall])
             else (Inr None, [LimitCall]))
      else (Inr None, []))"

definition switch_logged ::
  "runtime \<Rightarrow> env \<Rightarrow> string option \<Rightarrow> string \<Rightarrow> (thrown + string option) \<times> event list" where
  "switch_logged rt e model systemPrompt =
     (case model of
        None \<Rightarrow> (Inl InvalidCombination, [])
      | Some m \<Rightarrow>
          if m = ''gemini-flash'' then generateWithGemini_logged rt e systemPrompt ''gemini-flash''
          else if m = ''gemini-flash-thinking'' then
            generateWithGemini_logged rt e systemPrompt ''gemini-flash-thinking''
          else if m = ''gemini-exp'' then generateWithGemini_logged rt e systemPrompt ''gemini-exp''
          else if m = ''gpt-4o'' then generateWithOpenAI_logged rt e systemPrompt ''gpt-4o''
          else if m = ''gpt-4o-mini'' then generateWithOpenAI_logged rt e systemPrompt ''gpt-4o-mini''
          else if m = ''o1-mini'' then generateWithOpenAI_logged rt e systemPrompt ''o1-mini''
          else if m = ''o1'' then generateWithOpenAI_logged rt e systemPrompt ''o1''
          else if m = ''sonnet-3.5'' then
            generateWithAnthropic_logged rt e systemPrompt ''claude-3-5-sonnet-latest''
          else if m = ''haiku-3.5'' then
            generateWithAnthropic_logged rt e systemPrompt ''claude-3-5-haiku-latest''
          else (Inl InvalidCombination, []))"

text \<open>The \<^verbatim>\<open>try\<close> around the switch with its \<^verbatim>\<open>finally\<close>: the append of the
  \<^verbatim>\<open>finally\<close> runs whether the switch has thrown or not, and an exception of its own
  takes the place of the outcome of the switch.\<close>

definition dispatch_logged ::
  "runtime \<Rightarrow> env \<Rightarrow> string option \<Rightarrow> string \<Rightarrow> (thrown + string option) \<times> event list" where
  "dispatch_logged rt e model systemPrompt =
     (case switch_logged rt e model systemPrompt of
        (outcome, tr) \<Rightarrow>
          if \<not> appendFileSync rt ModelTimeLog then (Inl AppendError, tr) else (outcome, tr))"

text \<open>The match and the inner \<^verbatim>\<open>try\<close>, which covers the parse, the assignment of the
  sources, an append and the construction of the response; whatever is thrown there is
  answered "Failed to parse report format".\<close>

definition finish_logged :: "runtime \<Rightarrow> string \<Rightarrow> json list \<Rightarrow> response" where
  "finish_logged rt response srcs =
     (case json_span response of
        None \<Rightarrow> Failure InvalidReportFormat
      | Some jsonMatch \<Rightarrow>
          (case JSON_parse jsonMatch of
             None \<Rightarrow> Failure FailedToParseReportFormat
           | Some reportData \<Rightarrow>
               (case attach_sources reportData srcs of
                  Inl f \<Rightarrow> Failure f
                | Inr r \<Rightarrow>
                    if \<not> appendFileSync rt OverallTimeLog then Failure FailedToParseReportFormat
                    else if \<not> NextResponse_json rt r then Failure FailedToParseReportFormat
                    else Report r)))"

definition POST_try_logged ::
  "runtime \<Rightarrow> env \<Rightarrow> body option \<Rightarrow> (thrown + response) \<times> event list" where
  "POST_try_logged rt e request =
     (case request of
        None \<Rightarrow> (Inl BodyNotJson, [])
      | Some b \<Rightarrow>
          (case rateLimitCheck_logged rt e of
             (Inl err, tr) \<Rightarrow> (Inl err, tr)
           | (Inr (Some r), tr) \<Rightarrow> (Inr r, tr)
           | (Inr None, tr) \<Rightarrow>
               (case checkCatalog (CONFIG e) (selector_of b) of
                  Inl f \<Rightarrow> (Inr (Failure f), tr)
                | Inr model \<Rightarrow>
                    (let systemPrompt = generateSystemPrompt (selectedResults b) (prompt b)
                     in case dispatch_logged rt e model systemPrompt of
                          (Inl err, tr') \<Rightarrow> (Inl err, tr @ tr')
                        | (Inr None, tr') \<Rightarrow> (Inl NoResponseFromModel, tr @ tr')
                        | (Inr (Some response), tr') \<Rightarrow>
                            if response = [] then (Inl NoResponseFromModel, tr @ tr')
                            else if \<not> appendFileSync rt ModelResponseLog then
                              (Inl AppendError, tr @ tr')
                            else (Inr (finish_logged rt response (sources b)), tr @ tr')))))"

text \<open>The handler with its outer \<^verbatim>\<open>catch\<close>, which appends a line before it answers:
  when that append throws, the exception leaves the handler (\<open>Inl\<close>).\<close>

definition POST_logged ::
  "runtime \<Rightarrow> env \<Rightarrow> body option \<Rightarrow> (thrown + response) \<times> event list" where
  "POST_logged rt e request =
     (case POST_try_logged rt e request of
        (Inl err, tr) \<Rightarrow>
          if \<not> appendFileSync rt ErrorLog then (Inl AppendError, tr)
          else (Inr (Failure FailedToGenerateReport), tr)
      | (Inr r, tr) \<Rightarrow> (Inr r, tr))"

text \<open>The number of adapter calls in a trace.\<close>

definition adapter_calls :: "event list \<Rightarrow> nat" where
  "adapter_calls tr = length (filter (\<lambda>ev. ev \<noteq> LimitCall) tr)"

section \<open>Notions for stating the properties\<close>

text \<open>An invariant of the parser while it reads a text that starts with an opening brace:
  the keys collected for every open object are distinct, and the outermost open container
  is an object; at the end the value is an object with distinct keys.\<close>

fun frame_ok :: "frame \<Rightarrow> bool" where
  "frame_ok (InArray xs) = True"
| "frame_ok (InObject fs) = distinct (map fst fs)"
| "frame_ok (InMember fs k) = distinct (map fst fs)"

fun is_object_frame :: "frame \<Rightarrow> bool" where
  "is_object_frame (InArray xs) = False"
| "is_object_frame (InObject fs) = True"
| "is_object_frame (InMember fs k) = True"

definition object_document :: "json \<Rightarrow> bool" where
  "object_document v = (\<exists>props. v = JObject props \<and> distinct (map fst props))"

fun parsing_object :: "pstate \<Rightarrow> bool" where
  "parsing_object ([], ph) = (\<exists>v. ph = Finished v \<and> object_document v)"
| "parsing_object (f # st, ph) = (list_all frame_ok (f # st) \<and> is_object_frame (last (f # st)))"

text \<open>Every append to a log file succeeds.\<close>

definition all_appends_succeed :: "runtime \<Rightarrow> bool" where
  "all_appends_succeed rt = (appendFileSync rt RateLimitTimeLog \<and> appendFileSync rt AdapterTimeLog \<and>
     appendFileSync rt AdapterResponseLog \<and> appendFileSync rt ModelTimeLog \<and>
     appendFileSync rt ModelResponseLog \<and> appendFileSync rt OverallTimeLog \<and>
     appendFileSync rt ErrorLog)"

text \<open>The prompt that an adapter call hands to its provider.\<close>

definition event_prompt :: "event \<Rightarrow> string option" where
  "event_prompt ev =
     (case ev of
        LimitCall \<Rightarrow> None
      | GeminiCall client p \<Rightarrow> Some p
      | OpenAICall m p \<Rightarrow> Some p
      | AnthropicCall m p \<Rightarrow> Some p)"

definition one_adapter_call :: "string \<Rightarrow> (thrown + string option) \<times> event list \<Rightarrow> bool" where
  "one_adapter_call p r = (\<exists>ev. snd r = [ev] \<and> ev \<noteq> LimitCall \<and> event_prompt ev = Some p)"

text \<open>Whether a text contains the separator of the selector.\<close>

fun has_sep :: "string \<Rightarrow> bool" where
  "has_sep [] = False"
| "has_sep [c] = False"
| "has_sep (c # d # cs) = ((c = CHR ''_'' \<and> d = CHR ''_'') \<or> has_sep (d # cs))"

text \<open>The two segments that the handler reads off the selector.\<close>

definition platform_segment :: "string \<Rightarrow> string option" where
  "platform_segment selector = at_index (split [] selector) 0"

definition model_segment :: "string \<Rightarrow> string option" where
  "model_segment selector = at_index (split [] selector) 1"

text \<open>The requirement that the specification puts on a returned report: a title that is a
  non-empty string and a list of sections with at least one element.\<close>

definition well_formed_report :: "json \<Rightarrow> bool" where
  "well_formed_report r =
     (case r of
        JObject props \<Rightarrow>
          (case get_property props (units ''title'') of
             Some (JString t) \<Rightarrow> t \<noteq> []
           | _ \<Rightarrow> False) \<and>
          (case get_property props (units ''sections'') of
             Some (JArray xs) \<Rightarrow> xs \<noteq> []
           | _ \<Rightarrow> False)
      | _ \<Rightarrow> False)"

text \<open>A provider whose answer does not depend on the prompt it is given.\<close>

definition ignores_prompt :: "env \<Rightarrow> bool" where
  "ignores_prompt e =
     (\<exists>g c a. generateContent e = (\<lambda>client p. g client) \<and>
              chat_completions_create e = (\<lambda>m p. c m) \<and>
              messages_create e = (\<lambda>m p. a m))"

text \<open>What the handler makes of the adapter's answer, once the request has been dispatched.\<close>

definition after_dispatch ::
  "event list \<Rightarrow> json list \<Rightarrow> (thrown + string option) \<times> event list \<Rightarrow>
     (thrown + response) \<times> event list" where
  "after_dispatch tr srcs d =
     (case d of
        (Inl err, tr') \<Rightarrow> (Inr (Failure FailedToGenerateReport), tr @ tr')
      | (Inr None, tr') \<Rightarrow> (Inr (Failure FailedToGenerateReport), tr @ tr')
      | (Inr (Some response), tr') \<Rightarrow>
          if response = [] then (Inr (Failure FailedToGenerateReport), tr @ tr')
          else (Inr (finish response srcs), tr @ tr'))"

text \<open>The texts of a list occur in a text one after the other, without overlap.\<close>

fun occur_in_order :: "string list \<Rightarrow> string \<Rightarrow> bool" where
  "occur_in_order [] s = True"
| "occur_in_order (x # xs) s = (\<exists>pre post. s = pre @ x @ post \<and> occur_in_order xs post)"

definition article_fields :: "article \<Rightarrow> string list" where
  "article_fields a = [title a, url a, content a]"

text \<open>The document that the output contract of the prompt denotes when it is read as JSON.\<close>

definition contract_shape :: json where
  "contract_shape =
     JObject
       [(units ''title'', JString (units ''Report title'')),
        (units ''summary'', JString (units ''Executive summary (can include markdown)'')),
        (units ''sections'',
           JArray [JObject [(units ''title'', JString (units ''Section title'')),
                            (units ''content'',
                               JString (units ''Section content with markdown formatting''))]])]"

section \<open>Example data\<close>

text \<open>A catalog with an enabled platform that has an enabled model, a disabled model and a
  model without a branch in the dispatch, and a disabled platform; environments around it
  whose providers answer with a given completion; and request bodies.\<close>

definition example_config :: config where
  "example_config =
     \<lparr> rateLimits_enabled = False,
       platforms =
         [(''google'',
             \<lparr> platform_enabled = True,
               models = [(''gemini-flash'', \<lparr> model_enabled = True \<rparr>),
                         (''gemini-exp'', \<lparr> model_enabled = False \<rparr>),
                         (''gemini-ultra'', \<lparr> model_enabled = True \<rparr>)] \<rparr>),
          (''openai'',
             \<lparr> platform_enabled = False,
               models = [(''gpt-4o'', \<lparr> model_enabled = True \<rparr>)] \<rparr>)] \<rparr>"

definition example_env :: "string \<Rightarrow> env" where
  "example_env completion =
     \<lparr> CONFIG = example_config,
       limit = Some True,
       generateContent = (\<lambda>client p. Some completion),
       chat_completions_create = (\<lambda>m p. Some (Some completion)),
       messages_create = (\<lambda>m p. Some (Some completion)) \<rparr>"


definition example_body :: "string option \<Rightarrow> body" where
  "example_body selector =
     \<lparr> selectedResults = [], sources = [], prompt = [], platformModel = selector \<rparr>"

definition example_completion :: string where
  \<open>example_completion =
     ''Here is the report:\<newline>{"title":"T","summary":"S","sections":[{"title":"A","content":"B"}]}\<newline>Hope this helps!''\<close>

definition example_document :: json where
  "example_document =
     JObject
       [(units ''title'', JString (units ''T'')),
        (units ''summary'', JString (units ''S'')),
        (units ''sections'',
           JArray [JObject [(units ''title'', JString (units ''A'')),
                            (units ''content'', JString (units ''B''))]])]"

definition catalog_without_openai :: config where
  "catalog_without_openai = example_config \<lparr> platforms := [hd (platforms example_config)] \<rparr>"

definition limiting_env :: "string \<Rightarrow> env" where
  "limiting_env completion =
     (example_env completion) \<lparr> CONFIG := example_config \<lparr> rateLimits_enabled := True \<rparr> \<rparr>"

definition caller_sources :: "json list" where
  "caller_sources =
     [JObject [(units ''id'', JString (units ''s1'')), (units ''url'', JString (units ''https://a.example''))],
      JObject [(units ''id'', JString (units ''s2'')), (units ''url'', JString (units ''https://b.example''))]]"

definition sourced_body :: body where
  "sourced_body = (example_body (Some ''google__gemini-flash'')) \<lparr> sources := caller_sources \<rparr>"

definition completion_with_sources :: string where
  \<open>completion_with_sources =
     ''{"title":"T","sources":["invented"],"summary":"S","sections":[{"title":"A","content":"B"}]}''\<close>

definition sourced_report :: json where
  "sourced_report =
     JObject
       [(units ''title'', JString (units ''T'')),
        (units ''sources'', JArray caller_sources),
        (units ''summary'', JString (units ''S'')),
        (units ''sections'',
           JArray [JObject [(units ''title'', JString (units ''A'')),
                            (units ''content'', JString (units ''B''))]])]"

definition asking_body :: body where
  "asking_body =
     \<lparr> selectedResults =
         [\<lparr> title = ''Alpha'', url = ''https://a.example'', content = ''First text.'' \<rparr>,
          \<lparr> title = ''Beta'', url = ''https://b.example'', content = ''Second text.'' \<rparr>],
       sources = caller_sources,
       prompt = ''Compare the two.'',
       platformModel = Some ''google__gemini-flash'' \<rparr>"


text \<open>A runtime in which every append and every response succeeds, and one in which the
  log files cannot be written.\<close>

definition writable_runtime :: runtime where
  "writable_runtime = \<lparr> appendFileSync = (\<lambda>site. True), NextResponse_json = (\<lambda>r. True) \<rparr>"


section \<open>Properties\<close>

subsection \<open>The span of the document\<close>

lemma json_span_complete:
  assumes "CHR ''{'' \<notin> set pre" "CHR ''}'' \<notin> set post"
  shows "json_span (pre @ CHR ''{'' # mid @ CHR ''}'' # post) = Some (CHR ''{'' # mid @ [CHR ''}''])"
proof -
  have a: "dropWhile (\<lambda>c. c \<noteq> CHR ''{'') (pre @ CHR ''{'' # mid @ CHR ''}'' # post)
             = CHR ''{'' # mid @ CHR ''}'' # post"
    using assms(1) by (auto simp: dropWhile_append3)
  have b: "dropWhile (\<lambda>c. c \<noteq> CHR ''}'') (rev post @ CHR ''}'' # rev mid @ [CHR ''{''])
             = CHR ''}'' # rev mid @ [CHR ''{'']"
    using assms(2) by (auto simp: dropWhile_append3)
  show ?thesis
    unfolding json_span_def Let_def a by (simp add: b)
qed

lemma json_span_sound:
  assumes "json_span s = Some r"
  shows "\<exists>pre mid post. s = pre @ CHR ''{'' # mid @ CHR ''}'' # post \<and>
           CHR ''{'' \<notin> set pre \<and> CHR ''}'' \<notin> set post \<and> r = CHR ''{'' # mid @ [CHR ''}'']"
proof -
  define pre where "pre = takeWhile (\<lambda>c. c \<noteq> CHR ''{'') s"
  define t where "t = dropWhile (\<lambda>c. c \<noteq> CHR ''{'') s"
  define post where "post = rev (takeWhile (\<lambda>c. c \<noteq> CHR ''}'') (rev t))"
  have s: "s = pre @ t" by (simp add: pre_def t_def)
  have r: "r = rev (dropWhile (\<lambda>c. c \<noteq> CHR ''}'') (rev t))" and rne: "r \<noteq> []"
    using assms unfolding json_span_def Let_def t_def by (auto split: if_splits)
  have t: "t = r @ post"
  proof -
    have "rev t = takeWhile (\<lambda>c. c \<noteq> CHR ''}'') (rev t) @ dropWhile (\<lambda>c. c \<noteq> CHR ''}'') (rev t)"
      by simp
    then have "rev (rev t) = rev (takeWhile (\<lambda>c. c \<noteq> CHR ''}'') (rev t) @ dropWhile (\<lambda>c. c \<noteq> CHR ''}'') (rev t))"
      by simp
    then show ?thesis unfolding r post_def by (simp del: takeWhile_dropWhile_id)
  qed
  have pre: "CHR ''{'' \<notin> set pre"
    unfolding pre_def by (auto dest: set_takeWhileD)
  have post: "CHR ''}'' \<notin> set post"
    unfolding post_def by (auto dest: set_takeWhileD)
  have tne: "t \<noteq> []" using t rne by simp
  then have "hd t = CHR ''{''"
    unfolding t_def using hd_dropWhile[of "\<lambda>c. c \<noteq> CHR ''{''" s] by simp
  then have hdr: "hd r = CHR ''{''" using t rne by simp
  have "dropWhile (\<lambda>c. c \<noteq> CHR ''}'') (rev t) \<noteq> []" using r rne by simp
  then have "hd (dropWhile (\<lambda>c. c \<noteq> CHR ''}'') (rev t)) = CHR ''}''"
    using hd_dropWhile[of "\<lambda>c. c \<noteq> CHR ''}''" "rev t"] by simp
  then have lastr: "last r = CHR ''}''"
    using r rne by (simp add: last_rev)
  obtain r' where r': "r = CHR ''{'' # r'" using hdr rne by (cases r) auto
  with lastr have "r' \<noteq> []" by auto
  then obtain mid where mid: "r' = mid @ [CHR ''}'']"
    using lastr r' by (metis append_butlast_last_id last_ConsR)
  show ?thesis
    using s t r' mid pre post by auto
qed

lemma json_span_none_open:
  assumes "CHR ''{'' \<notin> set s"
  shows "json_span s = None"
proof -
  have h: "dropWhile (\<lambda>c. c \<noteq> CHR ''{'') s = []"
    using assms by (auto simp: dropWhile_eq_Nil_conv)
  show ?thesis
    unfolding json_span_def Let_def h by simp
qed

subsection \<open>The parser yields an object for a text that starts with a brace\<close>

lemma parsing_object_nonempty:
  "st \<noteq> [] \<Longrightarrow> parsing_object (st, ph) = (list_all frame_ok st \<and> is_object_frame (last st))"
  by (cases st) auto

lemma complete_parsing_object:
  assumes "list_all frame_ok st" "st \<noteq> []" "is_object_frame (last st)"
    and "complete v st = Some s'"
  shows "parsing_object s'"
proof (cases st)
  case Nil
  with assms(2) show ?thesis by simp
next
  case (Cons f st')
  show ?thesis
  proof (cases f)
    case (InArray xs)
    with Cons assms show ?thesis by (cases st') auto
  next
    case (InObject fs)
    with Cons assms show ?thesis by simp
  next
    case (InMember fs k)
    with Cons assms show ?thesis
      by (cases st') (auto simp: set_property_def distinct_update)
  qed
qed

lemma begin_value_parsing_object:
  assumes "list_all frame_ok st" "st \<noteq> []" "is_object_frame (last st)"
    and "begin_value st t = Some s'"
  shows "parsing_object s'"
proof (cases t)
  case TLBrace
  with assms show ?thesis by auto
next
  case TLBracket
  with assms show ?thesis by auto
qed (use assms in \<open>auto dest: complete_parsing_object\<close>)

lemma begin_member_parsing_object:
  assumes "list_all frame_ok st" "st \<noteq> []" "is_object_frame (last st)"
    and "begin_member st t = Some s'"
  shows "parsing_object s'"
  using assms by (induction st t rule: begin_member.induct) (auto split: if_splits)

lemma end_container_parsing_object:
  assumes "list_all frame_ok st" "st \<noteq> []" "is_object_frame (last st)"
    and "end_container st t = Some s'"
  shows "parsing_object s'"
proof (cases st)
  case Nil
  with assms(2) show ?thesis by simp
next
  case (Cons f st')
  show ?thesis
  proof (cases "st' = []")
    case True
    with Cons assms show ?thesis
      by (cases f; cases t) (auto simp: object_document_def)
  next
    case False
    with Cons assms have "list_all frame_ok st'" "is_object_frame (last st')" by auto
    with False Cons assms(4) show ?thesis
      by (cases f; cases t) (auto dest: complete_parsing_object)
  qed
qed

lemma step_parsing_object:
  assumes "parsing_object s" "step s t = Some s'"
  shows "parsing_object s'"
proof (cases s)
  case (Pair st ph)
  show ?thesis
  proof (cases st)
    case Nil
    with Pair assms show ?thesis by auto
  next
    case (Cons f st')
    with Pair assms(1) have inv: "list_all frame_ok st" "st \<noteq> []" "is_object_frame (last st)"
      by auto
    from Pair assms(2) inv show ?thesis
      by (cases ph)
         (auto split: if_splits list.splits frame.splits simp: parsing_object_nonempty
               dest: begin_value_parsing_object begin_member_parsing_object
                     end_container_parsing_object)
  qed
qed

lemma run_parsing_object:
  "parsing_object s \<Longrightarrow> run s ts = Some s' \<Longrightarrow> parsing_object s'"
  by (induction ts arbitrary: s) (auto split: option.splits dest: step_parsing_object)

lemma lex_open_brace: "lex (CHR ''{'' # cs) = map_option ((#) TLBrace) (lex cs)"
  by (simp add: is_ws_def)

lemma JSON_parse_brace_object:
  assumes "JSON_parse (CHR ''{'' # cs) = Some v"
  shows "object_document v"
proof -
  from assms obtain ts where ts: "lex cs = Some ts"
    and r: "run ([], Value) (TLBrace # ts) = Some ([], Finished v)"
    unfolding JSON_parse_def lex_open_brace
    by (auto split: option.splits prod.splits list.splits phase.splits)
  from r have "run ([InObject []], KeyOrEnd) ts = Some ([], Finished v)" by simp
  moreover have "parsing_object ([InObject []], KeyOrEnd)" by simp
  ultimately have "parsing_object ([], Finished v)" by (rule run_parsing_object[rotated])
  then show ?thesis by simp
qed

lemma extract_report_object:
  assumes "extract_report response = Inr reportData"
  shows "object_document reportData"
proof -
  from assms obtain span where span: "json_span response = Some span"
    and p: "JSON_parse span = Some reportData"
    unfolding extract_report_def by (auto split: option.splits)
  from json_span_sound[OF span] obtain mid where "span = CHR ''{'' # mid @ [CHR ''}'']" by blast
  with p show ?thesis by (auto dest: JSON_parse_brace_object)
qed

subsection \<open>Facts about the pieces of the handler\<close>

lemma rateLimitCheck_cases:
  "rateLimitCheck e = (Inl LimiterError, [LimitCall]) \<and> rateLimits_enabled (CONFIG e) \<and> limit e = None
   \<or> rateLimitCheck e = (Inr (Some (Failure TooManyRequests)), [LimitCall]) \<and>
       rateLimits_enabled (CONFIG e) \<and> limit e = Some False
   \<or> rateLimitCheck e = (Inr None, [LimitCall]) \<and> rateLimits_enabled (CONFIG e) \<and> limit e = Some True
   \<or> rateLimitCheck e = (Inr None, []) \<and> \<not> rateLimits_enabled (CONFIG e)"
  unfolding rateLimitCheck_def by (auto split: option.splits)

lemma generateWithGemini_trace: "one_adapter_call p (generateWithGemini e p m)"
  unfolding generateWithGemini_def Let_def one_adapter_call_def by (simp add: event_prompt_def)

lemma generateWithOpenAI_trace: "one_adapter_call p (generateWithOpenAI e p m)"
  unfolding generateWithOpenAI_def one_adapter_call_def by (simp add: event_prompt_def)

lemma generateWithAnthropic_trace: "one_adapter_call p (generateWithAnthropic e p m)"
  unfolding generateWithAnthropic_def one_adapter_call_def by (simp add: event_prompt_def)

lemma dispatch_trace:
  "dispatch e model p = (Inl InvalidCombination, []) \<or> one_adapter_call p (dispatch e model p)"
proof (cases model)
  case None
  then show ?thesis by (simp add: dispatch_def)
next
  case (Some m)
  show ?thesis
    unfolding dispatch_def Some option.case
    by (simp add: generateWithGemini_trace generateWithOpenAI_trace generateWithAnthropic_trace)
qed

lemma dispatch_no_model: "dispatch e None p = (Inl InvalidCombination, [])"
  by (simp add: dispatch_def)


lemma POST_rate_limited:
  assumes "rateLimitCheck e = (Inr (Some r), tr)"
  shows "POST e (Some b) = (Inr r, tr)"
  using assms by (simp add: POST_def POST_try_def Let_def)

lemma POST_limiter_throws:
  assumes "rateLimitCheck e = (Inl err, tr)"
  shows "POST e (Some b) = (Inr (Failure FailedToGenerateReport), tr)"
  using assms by (simp add: POST_def POST_try_def Let_def)

lemma POST_catalog_failure:
  assumes "rateLimitCheck e = (Inr None, tr)" "checkCatalog (CONFIG e) (selector_of b) = Inl f"
  shows "POST e (Some b) = (Inr (Failure f), tr)"
  using assms by (simp add: POST_def POST_try_def Let_def selector_of_def)

lemma POST_dispatched:
  assumes "rateLimitCheck e = (Inr None, tr)" "checkCatalog (CONFIG e) (selector_of b) = Inr model"
  shows "POST e (Some b) =
     (case dispatch e model (generateSystemPrompt (selectedResults b) (prompt b)) of
        (Inl err, tr') \<Rightarrow> (Inr (Failure FailedToGenerateReport), tr @ tr')
      | (Inr None, tr') \<Rightarrow> (Inr (Failure FailedToGenerateReport), tr @ tr')
      | (Inr (Some response), tr') \<Rightarrow>
          if response = [] then (Inr (Failure FailedToGenerateReport), tr @ tr')
          else (Inr (finish response (sources b)), tr @ tr'))"
proof -
  obtain r tr' where d: "dispatch e model (generateSystemPrompt (selectedResults b) (prompt b)) = (r, tr')"
    by (cases "dispatch e model (generateSystemPrompt (selectedResults b) (prompt b))")
  have sel: "(case platformModel b of None \<Rightarrow> default_platformModel | Some s \<Rightarrow> s) = selector_of b"
    by (simp add: selector_of_def)
  show ?thesis
  proof (cases r)
    case (Inl err)
    with d assms show ?thesis
      by (simp add: POST_def POST_try_def Let_def sel)
  next
    case (Inr resp)
    with d assms show ?thesis
      by (cases resp) (simp_all add: POST_def POST_try_def Let_def sel)
  qed
qed

lemma POST_trace:
  "\<exists>calls. snd (POST e (Some b)) = snd (rateLimitCheck e) @ calls \<and>
     (calls = [] \<or>
      (\<exists>ev. calls = [ev] \<and> ev \<noteq> LimitCall \<and>
            event_prompt ev = Some (generateSystemPrompt (selectedResults b) (prompt b))))"
proof -
  obtain r tr where rl: "rateLimitCheck e = (r, tr)" by (cases "rateLimitCheck e")
  show ?thesis
  proof (cases r)
    case (Inl err)
    with rl show ?thesis by (simp add: POST_limiter_throws)
  next
    case (Inr answer)
    show ?thesis
    proof (cases answer)
      case (Some resp)
      with rl Inr show ?thesis by (simp add: POST_rate_limited)
    next
      case None
      with rl Inr have pass: "rateLimitCheck e = (Inr None, tr)" by simp
      show ?thesis
      proof (cases "checkCatalog (CONFIG e) (selector_of b)")
        case (Inl f)
        with pass show ?thesis by (simp add: POST_catalog_failure)
      next
        case (Inr model)
        let ?p = "generateSystemPrompt (selectedResults b) (prompt b)"
        obtain d tr' where d: "dispatch e model ?p = (d, tr')" by (cases "dispatch e model ?p")
        have "snd (POST e (Some b)) = tr @ tr'"
          unfolding POST_dispatched[OF pass Inr] d
          by (auto split: sum.splits option.splits)
        moreover have "tr' = [] \<or> (\<exists>ev. tr' = [ev] \<and> ev \<noteq> LimitCall \<and> event_prompt ev = Some ?p)"
          using dispatch_trace[of e model ?p] d by (auto simp: one_adapter_call_def)
        ultimately show ?thesis using pass by auto
      qed
    qed
  qed
qed

lemma POST_adapter_calls_le: "adapter_calls (snd (POST e (Some b))) \<le> 1"
proof -
  have "adapter_calls (snd (rateLimitCheck e)) = 0"
    using rateLimitCheck_cases[of e] by (auto simp: adapter_calls_def)
  then show ?thesis
    using POST_trace[of e b] by (auto simp: adapter_calls_def)
qed



subsection \<open>The response extractor\<close>

lemma json_span_iff:
  "json_span raw = Some span \<longleftrightarrow>
     (\<exists>pre mid post. raw = pre @ CHR ''{'' # mid @ CHR ''}'' # post \<and>
        CHR ''{'' \<notin> set pre \<and> CHR ''}'' \<notin> set post \<and> span = CHR ''{'' # mid @ [CHR ''}''])"
  using json_span_sound[of raw span] json_span_complete by blast

lemma extract_example: "extract_report example_completion = Inr example_document"
  by code_simp

lemma extract_unclosed: "extract_report ''{invalid json'' = Inl InvalidReportFormat"
  by code_simp

lemma extract_closed_invalid: "extract_report ''{invalid json}'' = Inl FailedToParseReportFormat"
  by code_simp

text \<open>
  C2, as the claim states it, fails on its third example: the text "{invalid json" has no
  closing brace, so the pattern does not match and the answer is "Invalid report format"
  (the failure of a text with no document), not "Failed to parse report format".
\<close>

theorem unclosed_brace_counterexample:
  "extract_report ''{invalid json'' \<noteq> Inl FailedToParseReportFormat"
  by (simp add: extract_unclosed)

text \<open>
  C2, amended. The extractor takes the span from the first opening brace to the last closing
  brace after it. On the example text of the specification it returns the document with
  title T, summary S and the one section A/B. A text with no opening brace is answered
  "Invalid report format", and so is the text "{invalid json", which has no closing brace;
  the text "{invalid json}" is answered "Failed to parse report format".
\<close>

theorem extractor_behaviour:
  "(json_span raw = Some span \<longleftrightarrow>
     (\<exists>pre mid post. raw = pre @ CHR ''{'' # mid @ CHR ''}'' # post \<and>
        CHR ''{'' \<notin> set pre \<and> CHR ''}'' \<notin> set post \<and> span = CHR ''{'' # mid @ [CHR ''}''])) \<and>
   extract_report example_completion = Inr example_document \<and>
   (CHR ''{'' \<notin> set raw \<longrightarrow> extract_report raw = Inl InvalidReportFormat) \<and>
   extract_report ''{invalid json'' = Inl InvalidReportFormat \<and>
   extract_report ''{invalid json}'' = Inl FailedToParseReportFormat"
proof (intro conjI impI)
  show "json_span raw = Some span \<longleftrightarrow>
     (\<exists>pre mid post. raw = pre @ CHR ''{'' # mid @ CHR ''}'' # post \<and>
        CHR ''{'' \<notin> set pre \<and> CHR ''}'' \<notin> set post \<and> span = CHR ''{'' # mid @ [CHR ''}''])"
    by (rule json_span_iff)
  show "extract_report example_completion = Inr example_document"
    by (rule extract_example)
  show "extract_report raw = Inl InvalidReportFormat" if "CHR ''{'' \<notin> set raw"
    using json_span_none_open[OF that] by (simp add: extract_report_def)
  show "extract_report ''{invalid json'' = Inl InvalidReportFormat"
    by (rule extract_unclosed)
  show "extract_report ''{invalid json}'' = Inl FailedToParseReportFormat"
    by (rule extract_closed_invalid)
qed

theorem extractor_behaviour_witness:
  "CHR ''{'' \<notin> set ''I cannot help with that.'' \<and>
   extract_report ''I cannot help with that.'' = Inl InvalidReportFormat \<and>
   json_span ''a{b}c}d'' = Some ''{b}c}''"
proof -
  have a: "CHR ''{'' \<notin> set ''I cannot help with that.''" by simp
  have b: "''a{b}c}d'' = ''a'' @ CHR ''{'' # ''b}c'' @ CHR ''}'' # ''d'' \<and>
           CHR ''{'' \<notin> set ''a'' \<and> CHR ''}'' \<notin> set ''d'' \<and> ''{b}c}'' = CHR ''{'' # ''b}c'' @ [CHR ''}'']"
    by simp
  from a extractor_behaviour[of "''I cannot help with that.''" "''{b}c}''"]
  have 1: "extract_report ''I cannot help with that.'' = Inl InvalidReportFormat" by blast
  from b extractor_behaviour[of "''a{b}c}d''" "''{b}c}''"]
  have 2: "json_span ''a{b}c}d'' = Some ''{b}c}''" by blast
  from a 1 2 show ?thesis by blast
qed

subsection \<open>The selector and its segments\<close>

lemma has_sep_iff: "has_sep s \<longleftrightarrow> (\<exists>pre post. s = pre @ ''__'' @ post)"
proof (induction s rule: has_sep.induct)
  case 1
  show ?case by simp
next
  case (2 c)
  show ?case by (auto simp: append_eq_Cons_conv)
next
  case (3 c d cs)
  show ?case
  proof
    assume "has_sep (c # d # cs)"
    then consider "c = CHR ''_'' \<and> d = CHR ''_''" | "has_sep (d # cs)" by auto
    then show "\<exists>pre post. c # d # cs = pre @ ''__'' @ post"
    proof cases
      case 1
      then have "c # d # cs = [] @ ''__'' @ cs" by simp
      then show ?thesis by blast
    next
      case 2
      with "3.IH" obtain pre post where "d # cs = pre @ ''__'' @ post" by blast
      then have "c # d # cs = (c # pre) @ ''__'' @ post" by simp
      then show ?thesis by blast
    qed
  next
    assume "\<exists>pre post. c # d # cs = pre @ ''__'' @ post"
    then obtain pre post where eq: "c # d # cs = pre @ ''__'' @ post" by blast
    show "has_sep (c # d # cs)"
    proof (cases pre)
      case Nil
      with eq show ?thesis by simp
    next
      case (Cons x pre')
      with eq have "d # cs = pre' @ ''__'' @ post" by simp
      then have "\<exists>pre post. d # cs = pre @ ''__'' @ post" by blast
      with "3.IH" have "has_sep (d # cs)" by simp
      then show ?thesis by simp
    qed
  qed
qed

lemma split_no_sep: "\<not> has_sep s \<Longrightarrow> split seg s = [rev seg @ s]"
  by (induction seg s rule: split.induct) auto

lemma split_at_sep:
  "CHR ''_'' \<notin> set p \<Longrightarrow> split seg (p @ ''__'' @ rest) = (rev seg @ p) # split [] rest"
proof (induction p arbitrary: seg)
  case Nil
  show ?case by simp
next
  case (Cons c p)
  obtain d cs where dc: "p @ ''__'' @ rest = d # cs" by (cases p) auto
  from Cons.prems have c: "c \<noteq> CHR ''_''" and p: "CHR ''_'' \<notin> set p" by auto
  have "split seg ((c # p) @ ''__'' @ rest) = split (c # seg) (p @ ''__'' @ rest)"
    using c dc by simp
  also have "\<dots> = (rev (c # seg) @ p) # split [] rest" by (rule Cons.IH[OF p])
  finally show ?case by simp
qed

lemma no_underscore_no_sep: "CHR ''_'' \<notin> set s \<Longrightarrow> \<not> has_sep s"
  by (induction s rule: has_sep.induct) auto

lemma segments_no_sep:
  "\<not> has_sep s \<Longrightarrow> platform_segment s = Some s \<and> model_segment s = None"
  by (simp add: platform_segment_def model_segment_def split_no_sep)

lemma segments_of_pair:
  assumes "CHR ''_'' \<notin> set p" "CHR ''_'' \<notin> set m"
  shows "platform_segment (p @ ''__'' @ m) = Some p \<and> model_segment (p @ ''__'' @ m) = Some m"
proof -
  have "split [] (p @ ''__'' @ m) = p # split [] m"
    using split_at_sep[OF assms(1), of "[]" m] by simp
  moreover have "split [] m = [m]"
    using split_no_sep[OF no_underscore_no_sep[OF assms(2)], of "[]"] by simp
  ultimately show ?thesis
    by (simp add: platform_segment_def model_segment_def)
qed

subsection \<open>Rendered responses are told apart\<close>

lemma units_eq_iff: "units a = units b \<longleftrightarrow> a = b"
proof -
  have "inj (of_char :: char \<Rightarrow> nat)" by (rule injI) simp
  then show ?thesis unfolding units_def by (rule inj_map_eq_map)
qed

lemma enabled_not_disabled: "p @ '' platform is not enabled'' \<noteq> m @ '' model is disabled''"
proof
  assume "p @ '' platform is not enabled'' = m @ '' model is disabled''"
  then have "(p @ '' platform is not'') @ '' enabled'' = (m @ '' model is '') @ ''disabled''"
    by simp
  then have "'' enabled'' = ''disabled''"
    by (subst (asm) append_eq_append_conv) simp_all
  then show False by simp
qed

lemma enabled_not_exist: "p @ '' platform is not enabled'' \<noteq> m @ '' model does not exist''"
proof
  assume "p @ '' platform is not enabled'' = m @ '' model does not exist''"
  then have "last (p @ '' platform is not enabled'') = last (m @ '' model does not exist'')"
    by simp
  then show False by simp
qed

lemma exist_not_disabled: "m @ '' model does not exist'' \<noteq> n @ '' model is disabled''"
proof
  assume "m @ '' model does not exist'' = n @ '' model is disabled''"
  then have "last (m @ '' model does not exist'') = last (n @ '' model is disabled'')"
    by simp
  then show False by simp
qed

lemma error_message_inj:
  assumes "status f = status g" "error_message f = error_message g"
  shows "f = g"
  using assms enabled_not_disabled enabled_not_exist exist_not_disabled
  by (cases f; cases g) (auto dest: sym)

lemma render_inj: "render r = render r' \<Longrightarrow> r = r'"
proof (cases r; cases r')
  fix f g
  assume "render r = render r'" "r = Failure f" "r' = Failure g"
  then show ?thesis by (auto simp: units_eq_iff dest: error_message_inj)
next
  fix d f
  assume "render r = render r'" "r = Report d" "r' = Failure f"
  then show ?thesis by (cases f) auto
next
  fix d f
  assume "render r = render r'" "r = Failure f" "r' = Report d"
  then show ?thesis by (cases f) auto
qed auto

subsection \<open>The catalog checks\<close>

lemma checkCatalog_platform_missing:
  assumes "map_of (platforms cfg) (js_string (platform_segment sel)) = None"
  shows "checkCatalog cfg sel = Inl (PlatformNotEnabled (js_string (platform_segment sel)))"
  using assms
  by (simp add: checkCatalog_def Let_def js_get_def platform_segment_def split: slot.splits)

lemma checkCatalog_platform_disabled:
  assumes "map_of (platforms cfg) (js_string (platform_segment sel)) = Some pc"
    and "\<not> platform_enabled pc"
  shows "checkCatalog cfg sel = Inl (PlatformNotEnabled (js_string (platform_segment sel)))"
  using assms
  by (simp add: checkCatalog_def Let_def js_get_def platform_segment_def)

lemma checkCatalog_platform_enabled:
  assumes "map_of (platforms cfg) (js_string (platform_segment sel)) = Some pc"
    and "platform_enabled pc"
  shows "checkCatalog cfg sel =
     (case map_of (models pc) (js_string (model_segment sel)) of
        None \<Rightarrow>
          if js_string (model_segment sel) \<in> set object_prototype_names
          then Inl (ModelDisabled (js_string (model_segment sel)))
          else Inl (ModelDoesNotExist (js_string (model_segment sel)))
      | Some mc \<Rightarrow>
          if model_enabled mc then Inr (model_segment sel)
          else Inl (ModelDisabled (js_string (model_segment sel))))"
  using assms
  by (simp add: checkCatalog_def Let_def js_get_def platform_segment_def model_segment_def
           split: option.splits)

lemma render_distinct: "r \<noteq> r' \<Longrightarrow> render r \<noteq> render r'"
  using render_inj by blast

text \<open>
  C3, as the claim states it, fails: there are not four distinct catalog errors. A platform
  that the catalog does not know and a platform that is known but disabled are answered by
  the same response, "openai platform is not enabled" with status 400.
\<close>

theorem unknown_platform_counterexample:
  "map_of (platforms catalog_without_openai) ''openai'' = None \<and>
   map_option platform_enabled (map_of (platforms example_config) ''openai'') = Some False \<and>
   checkCatalog catalog_without_openai ''openai__gpt-4o'' = Inl (PlatformNotEnabled ''openai'') \<and>
   checkCatalog example_config ''openai__gpt-4o'' = Inl (PlatformNotEnabled ''openai'') \<and>
   render (Failure (PlatformNotEnabled ''openai'')) =
     (400, JObject [(units ''error'', JString (units ''openai platform is not enabled''))])"
  by code_simp

text \<open>
  C3, amended. With \<open>P\<close> and \<open>M\<close> the platform and model segments of the selector, the catalog
  checks run in this order and surface three distinct errors:
  \<^enum> the platform: if \<open>P\<close> is not a key of the catalog, or is one and is disabled, the answer
    is "\<open>P\<close> platform is not enabled", whatever the model segment is;
  \<^enum> the model's existence: otherwise, if \<open>M\<close> is no key of the platform's models (and no
    member name of \<^verbatim>\<open>Object.prototype\<close>), the answer is "\<open>M\<close> model does not exist";
  \<^enum> the model's flag: otherwise, if the model is disabled (or \<open>M\<close> is such a member name),
    the answer is "\<open>M\<close> model is disabled";
  \<^enum> otherwise the checks pass.
  The three answers are pairwise different responses. In particular a selector
  \<open>p__m\<close> naming a disabled platform \<open>p\<close> is answered by the platform error for every
  model name \<open>m\<close>. Once the rate-limit block has let the request pass, the handler returns
  the catalog error without calling an adapter.
\<close>

theorem catalog_check_order:
  "(map_of (platforms cfg) (js_string (platform_segment sel)) = None \<or>
    map_option platform_enabled (map_of (platforms cfg) (js_string (platform_segment sel))) = Some False
      \<longrightarrow> checkCatalog cfg sel = Inl (PlatformNotEnabled (js_string (platform_segment sel)))) \<and>
   (map_of (platforms cfg) (js_string (platform_segment sel)) = Some pc \<and> platform_enabled pc \<longrightarrow>
      (map_of (models pc) (js_string (model_segment sel)) = None \<and>
       js_string (model_segment sel) \<notin> set object_prototype_names
         \<longrightarrow> checkCatalog cfg sel = Inl (ModelDoesNotExist (js_string (model_segment sel)))) \<and>
      (map_of (models pc) (js_string (model_segment sel)) = None \<and>
       js_string (model_segment sel) \<in> set object_prototype_names
         \<longrightarrow> checkCatalog cfg sel = Inl (ModelDisabled (js_string (model_segment sel)))) \<and>
      (map_option model_enabled (map_of (models pc) (js_string (model_segment sel))) = Some False
         \<longrightarrow> checkCatalog cfg sel = Inl (ModelDisabled (js_string (model_segment sel)))) \<and>
      (map_option model_enabled (map_of (models pc) (js_string (model_segment sel))) = Some True
         \<longrightarrow> checkCatalog cfg sel = Inr (model_segment sel))) \<and>
   render (Failure (PlatformNotEnabled p)) \<noteq> render (Failure (ModelDoesNotExist m)) \<and>
   render (Failure (PlatformNotEnabled p)) \<noteq> render (Failure (ModelDisabled m)) \<and>
   render (Failure (ModelDoesNotExist m)) \<noteq> render (Failure (ModelDisabled m')) \<and>
   (CHR ''_'' \<notin> set p \<and> CHR ''_'' \<notin> set m \<and>
    map_option platform_enabled (map_of (platforms cfg) p) = Some False
      \<longrightarrow> checkCatalog cfg (p @ ''__'' @ m) = Inl (PlatformNotEnabled p)) \<and>
   (rateLimitCheck e = (Inr None, tr) \<and> checkCatalog (CONFIG e) (selector_of b) = Inl f
      \<longrightarrow> POST e (Some b) = (Inr (Failure f), tr) \<and> adapter_calls tr = 0)"
proof (intro conjI impI)
  assume "map_of (platforms cfg) (js_string (platform_segment sel)) = None \<or>
    map_option platform_enabled (map_of (platforms cfg) (js_string (platform_segment sel))) = Some False"
  then show "checkCatalog cfg sel = Inl (PlatformNotEnabled (js_string (platform_segment sel)))"
    by (auto intro: checkCatalog_platform_missing checkCatalog_platform_disabled)
next
  assume en: "map_of (platforms cfg) (js_string (platform_segment sel)) = Some pc \<and> platform_enabled pc"
  note eq = checkCatalog_platform_enabled[OF conjunct1[OF en] conjunct2[OF en]]
  {
    assume "map_of (models pc) (js_string (model_segment sel)) = None \<and>
       js_string (model_segment sel) \<notin> set object_prototype_names"
    then show "checkCatalog cfg sel = Inl (ModelDoesNotExist (js_string (model_segment sel)))"
      unfolding eq by simp
  }
  {
    assume "map_of (models pc) (js_string (model_segment sel)) = None \<and>
       js_string (model_segment sel) \<in> set object_prototype_names"
    then show "checkCatalog cfg sel = Inl (ModelDisabled (js_string (model_segment sel)))"
      unfolding eq by simp
  }
  {
    assume "map_option model_enabled (map_of (models pc) (js_string (model_segment sel))) = Some False"
    then show "checkCatalog cfg sel = Inl (ModelDisabled (js_string (model_segment sel)))"
      unfolding eq by auto
  }
  {
    assume "map_option model_enabled (map_of (models pc) (js_string (model_segment sel))) = Some True"
    then show "checkCatalog cfg sel = Inr (model_segment sel)"
      unfolding eq by auto
  }
next
  show "render (Failure (PlatformNotEnabled p)) \<noteq> render (Failure (ModelDoesNotExist m))"
    by (rule render_distinct) simp
  show "render (Failure (PlatformNotEnabled p)) \<noteq> render (Failure (ModelDisabled m))"
    by (rule render_distinct) simp
  show "render (Failure (ModelDoesNotExist m)) \<noteq> render (Failure (ModelDisabled m'))"
    by (rule render_distinct) simp
next
  assume a: "CHR ''_'' \<notin> set p \<and> CHR ''_'' \<notin> set m \<and>
    map_option platform_enabled (map_of (platforms cfg) p) = Some False"
  then have seg: "js_string (platform_segment (p @ ''__'' @ m)) = p"
    using segments_of_pair[of p m] by (simp add: js_string_def)
  from a obtain pc' where "map_of (platforms cfg) p = Some pc'" "\<not> platform_enabled pc'" by auto
  then show "checkCatalog cfg (p @ ''__'' @ m) = Inl (PlatformNotEnabled p)"
    using checkCatalog_platform_disabled[of cfg "p @ ''__'' @ m" pc'] seg by simp
next
  assume a: "rateLimitCheck e = (Inr None, tr) \<and> checkCatalog (CONFIG e) (selector_of b) = Inl f"
  then show "POST e (Some b) = (Inr (Failure f), tr)"
    by (simp add: POST_catalog_failure)
  from a rateLimitCheck_cases[of e] show "adapter_calls tr = 0"
    by (auto simp: adapter_calls_def)
qed

theorem catalog_check_order_witness:
  "map_option platform_enabled
     (map_of (platforms example_config) (js_string (platform_segment ''openai__gpt-4o''))) = Some False \<and>
   checkCatalog example_config ''openai__gpt-4o'' = Inl (PlatformNotEnabled ''openai'') \<and>
   map_option platform_enabled
     (map_of (platforms example_config) (js_string (platform_segment ''google__gemini-pro''))) = Some True \<and>
   checkCatalog example_config ''google__gemini-pro'' = Inl (ModelDoesNotExist ''gemini-pro'') \<and>
   checkCatalog example_config ''google__toString'' = Inl (ModelDisabled ''toString'') \<and>
   checkCatalog example_config ''google__gemini-exp'' = Inl (ModelDisabled ''gemini-exp'') \<and>
   checkCatalog example_config ''google__gemini-flash'' = Inr (Some ''gemini-flash'') \<and>
   CHR ''_'' \<notin> set ''openai'' \<and> CHR ''_'' \<notin> set ''gpt-4o'' \<and>
   checkCatalog example_config (''openai'' @ ''__'' @ ''gpt-4o'') = Inl (PlatformNotEnabled ''openai'') \<and>
   rateLimitCheck (example_env ''{}'') = (Inr None, []) \<and>
   POST (example_env ''{}'') (Some (example_body (Some ''openai__gpt-4o''))) =
     (Inr (Failure (PlatformNotEnabled ''openai'')), [])"
proof -
  let ?g = "\<lparr> platform_enabled = True,
               models = [(''gemini-flash'', \<lparr> model_enabled = True \<rparr>),
                         (''gemini-exp'', \<lparr> model_enabled = False \<rparr>),
                         (''gemini-ultra'', \<lparr> model_enabled = True \<rparr>)] \<rparr>"
  have p1: "js_string (platform_segment ''openai__gpt-4o'') = ''openai''" by code_simp
  have h1: "map_option platform_enabled
     (map_of (platforms example_config) (js_string (platform_segment ''openai__gpt-4o''))) = Some False"
    by code_simp
  from catalog_check_order[of example_config "''openai__gpt-4o''"] h1
  have "checkCatalog example_config ''openai__gpt-4o'' =
          Inl (PlatformNotEnabled (js_string (platform_segment ''openai__gpt-4o'')))"
    by blast
  then have c1: "checkCatalog example_config ''openai__gpt-4o'' = Inl (PlatformNotEnabled ''openai'')"
    unfolding p1 .
  have h2: "map_option platform_enabled
     (map_of (platforms example_config) (js_string (platform_segment ''google__gemini-pro''))) = Some True"
    by code_simp
  have g1: "map_of (platforms example_config) (js_string (platform_segment ''google__gemini-pro'')) = Some ?g \<and>
      platform_enabled ?g"
    by code_simp
  have h3: "map_of (models ?g) (js_string (model_segment ''google__gemini-pro'')) = None \<and>
      js_string (model_segment ''google__gemini-pro'') \<notin> set object_prototype_names"
    by code_simp
  have m3: "js_string (model_segment ''google__gemini-pro'') = ''gemini-pro''" by code_simp
  from catalog_check_order[of example_config "''google__gemini-pro''" ?g] g1 h3
  have "checkCatalog example_config ''google__gemini-pro'' =
          Inl (ModelDoesNotExist (js_string (model_segment ''google__gemini-pro'')))"
    by blast
  then have c2: "checkCatalog example_config ''google__gemini-pro'' = Inl (ModelDoesNotExist ''gemini-pro'')"
    unfolding m3 .
  have g2: "map_of (platforms example_config) (js_string (platform_segment ''google__toString'')) = Some ?g \<and>
      platform_enabled ?g"
    by code_simp
  have h4: "map_of (models ?g) (js_string (model_segment ''google__toString'')) = None \<and>
      js_string (model_segment ''google__toString'') \<in> set object_prototype_names"
    by code_simp
  have m4: "js_string (model_segment ''google__toString'') = ''toString''" by code_simp
  from catalog_check_order[of example_config "''google__toString''" ?g] g2 h4
  have "checkCatalog example_config ''google__toString'' =
          Inl (ModelDisabled (js_string (model_segment ''google__toString'')))"
    by blast
  then have c3: "checkCatalog example_config ''google__toString'' = Inl (ModelDisabled ''toString'')"
    unfolding m4 .
  have g3: "map_of (platforms example_config) (js_string (platform_segment ''google__gemini-exp'')) = Some ?g \<and>
      platform_enabled ?g"
    by code_simp
  have h5: "map_option model_enabled
      (map_of (models ?g) (js_string (model_segment ''google__gemini-exp''))) = Some False"
    by code_simp
  have m5: "js_string (model_segment ''google__gemini-exp'') = ''gemini-exp''" by code_simp
  from catalog_check_order[of example_config "''google__gemini-exp''" ?g] g3 h5
  have "checkCatalog example_config ''google__gemini-exp'' =
          Inl (ModelDisabled (js_string (model_segment ''google__gemini-exp'')))"
    by blast
  then have c4: "checkCatalog example_config ''google__gemini-exp'' = Inl (ModelDisabled ''gemini-exp'')"
    unfolding m5 .
  have g4: "map_of (platforms example_config) (js_string (platform_segment ''google__gemini-flash'')) = Some ?g \<and>
      platform_enabled ?g"
    by code_simp
  have h6: "map_option model_enabled
      (map_of (models ?g) (js_string (model_segment ''google__gemini-flash''))) = Some True"
    by code_simp
  have m6: "model_segment ''google__gemini-flash'' = Some ''gemini-flash''" by code_simp
  from catalog_check_order[of example_config "''google__gemini-flash''" ?g] g4 h6
  have "checkCatalog example_config ''google__gemini-flash'' = Inr (model_segment ''google__gemini-flash'')"
    by blast
  then have c5: "checkCatalog example_config ''google__gemini-flash'' = Inr (Some ''gemini-flash'')"
    unfolding m6 .
  have h7: "CHR ''_'' \<notin> set ''openai'' \<and> CHR ''_'' \<notin> set ''gpt-4o'' \<and>
      map_option platform_enabled (map_of (platforms example_config) ''openai'') = Some False"
    by code_simp
  from catalog_check_order[where cfg = example_config and p = "''openai''" and m = "''gpt-4o''"] h7
  have c6: "checkCatalog example_config (''openai'' @ ''__'' @ ''gpt-4o'') = Inl (PlatformNotEnabled ''openai'')"
    by blast
  have h8: "rateLimitCheck (example_env ''{}'') = (Inr None, [])" by code_simp
  have h9: "checkCatalog (CONFIG (example_env ''{}'')) (selector_of (example_body (Some ''openai__gpt-4o'')))
              = Inl (PlatformNotEnabled ''openai'')"
    by code_simp
  from catalog_check_order[where e = "example_env ''{}''" and tr = "[]"
          and b = "example_body (Some ''openai__gpt-4o'')" and f = "PlatformNotEnabled ''openai''"] h8 h9
  have c7: "POST (example_env ''{}'') (Some (example_body (Some ''openai__gpt-4o''))) =
     (Inr (Failure (PlatformNotEnabled ''openai'')), [])"
    by blast
  from h1 c1 h2 c2 c3 c4 c5 h7 c6 h8 c7 show ?thesis by blast
qed

subsection \<open>A selector without the separator\<close>

lemma checkCatalog_no_sep:
  assumes "\<not> has_sep sel"
  shows "checkCatalog cfg sel \<in>
     {Inl (PlatformNotEnabled sel), Inl (ModelDoesNotExist ''undefined''),
      Inl (ModelDisabled ''undefined''), Inr None}"
proof -
  have seg: "js_string (platform_segment sel) = sel" "model_segment sel = None"
    "js_string (model_segment sel) = ''undefined''"
    using segments_no_sep[OF assms] by (simp_all add: js_string_def)
  show ?thesis
  proof (cases "map_of (platforms cfg) sel")
    case None
    with checkCatalog_platform_missing[of cfg sel] seg show ?thesis by simp
  next
    case (Some pc)
    show ?thesis
    proof (cases "platform_enabled pc")
      case False
      with Some checkCatalog_platform_disabled[of cfg sel pc] seg show ?thesis by simp
    next
      case True
      with Some checkCatalog_platform_enabled[of cfg sel pc] seg show ?thesis
        by (auto split: option.splits)
    qed
  qed
qed

lemma POST_no_sep:
  assumes "\<not> has_sep sel" "selector_of b = sel"
  shows "adapter_calls (snd (POST e (Some b))) = 0 \<and>
     fst (POST e (Some b)) \<in>
       {Inr (Failure TooManyRequests), Inr (Failure (PlatformNotEnabled sel)),
        Inr (Failure (ModelDoesNotExist ''undefined'')), Inr (Failure (ModelDisabled ''undefined'')),
        Inr (Failure FailedToGenerateReport)}"
proof -
  note sel = assms(2)
  obtain r tr where rl: "rateLimitCheck e = (r, tr)" by (cases "rateLimitCheck e")
  have tr: "adapter_calls tr = 0"
    using rateLimitCheck_cases[of e] rl by (auto simp: adapter_calls_def)
  show ?thesis
  proof (cases r)
    case (Inl err)
    with rl tr show ?thesis by (simp add: POST_limiter_throws)
  next
    case (Inr answer)
    show ?thesis
    proof (cases answer)
      case (Some resp)
      with rl Inr rateLimitCheck_cases[of e] have "resp = Failure TooManyRequests" by auto
      with rl Inr Some tr show ?thesis by (simp add: POST_rate_limited)
    next
      case None
      with rl Inr have pass: "rateLimitCheck e = (Inr None, tr)" by simp
      show ?thesis
      proof (cases "checkCatalog (CONFIG e) sel")
        case (Inl f)
        with checkCatalog_no_sep[OF assms(1), of "CONFIG e"]
        have "f \<in> {PlatformNotEnabled sel, ModelDoesNotExist ''undefined'', ModelDisabled ''undefined''}"
          by auto
        with POST_catalog_failure[OF pass, of b f] Inl sel tr show ?thesis by auto
      next
        case (Inr model)
        with checkCatalog_no_sep[OF assms(1), of "CONFIG e"] have "model = None" by auto
        with POST_dispatched[OF pass, of b model] Inr sel tr show ?thesis
          by (simp add: dispatch_no_model)
      qed
    qed
  qed
qed




subsection \<open>The default selector\<close>

lemma default_selector_never_succeeds:
  assumes "platformModel b = None"
  shows "adapter_calls (snd (POST e (Some b))) = 0 \<and> fst (POST e (Some b)) \<noteq> Inr (Report r)"
proof -
  have "\<not> has_sep default_platformModel" by code_simp
  moreover have "selector_of b = default_platformModel"
    using assms by (simp add: selector_of_def)
  ultimately show ?thesis
    using POST_no_sep[of default_platformModel b e] by auto
qed

text \<open>
  C5. The default that the handler substitutes for an absent \<^verbatim>\<open>platformModel\<close> is the
  text "google-gemini-flash", written with a hyphen where the selectors of the type
  \<^verbatim>\<open>PlatformModel\<close> have the separator. It is split into the platform
  "google-gemini-flash" and no model, so with the catalog that enables google and
  gemini-flash the request is answered "google-gemini-flash platform is not enabled", while
  the same request with the selector "google__gemini-flash" given explicitly succeeds.
\<close>

theorem default_selector_is_rejected:
  "platformModel (example_body None) = None \<and>
   POST (example_env ''{}'') (Some (example_body None)) =
     (Inr (Failure (PlatformNotEnabled ''google-gemini-flash'')), []) \<and>
   POST (example_env ''{}'') (Some (example_body (Some ''google__gemini-flash''))) =
     (Inr (Report (JObject [(units ''sources'', JArray [])])),
      [GeminiCall geminiFlashModel (generateSystemPrompt [] [])])"
  by code_simp

subsection \<open>Success of the handler\<close>

lemma POST_success:
  assumes "POST e (Some b) = (Inr (Report r), tr)"
  shows "\<exists>model response tr0 tr1.
     rateLimitCheck e = (Inr None, tr0) \<and>
     checkCatalog (CONFIG e) (selector_of b) = Inr model \<and>
     dispatch e model (generateSystemPrompt (selectedResults b) (prompt b)) = (Inr (Some response), tr1) \<and>
     response \<noteq> [] \<and> finish response (sources b) = Report r \<and> tr = tr0 @ tr1"
proof -
  obtain x tr0 where rl: "rateLimitCheck e = (x, tr0)" by (cases "rateLimitCheck e")
  show ?thesis
  proof (cases x)
    case (Inl err)
    with rl assms show ?thesis by (simp add: POST_limiter_throws)
  next
    case (Inr answer)
    show ?thesis
    proof (cases answer)
      case (Some resp)
      with rl Inr rateLimitCheck_cases[of e] have "resp = Failure TooManyRequests" by auto
      with rl Inr Some assms show ?thesis by (simp add: POST_rate_limited)
    next
      case None
      with rl Inr have pass: "rateLimitCheck e = (Inr None, tr0)" by simp
      show ?thesis
      proof (cases "checkCatalog (CONFIG e) (selector_of b)")
        case (Inl f)
        with pass assms show ?thesis by (simp add: POST_catalog_failure)
      next
        case (Inr model)
        let ?p = "generateSystemPrompt (selectedResults b) (prompt b)"
        obtain d tr1 where d: "dispatch e model ?p = (d, tr1)" by (cases "dispatch e model ?p")
        from assms have "\<exists>response. d = Inr (Some response) \<and> response \<noteq> [] \<and>
            finish response (sources b) = Report r \<and> tr = tr0 @ tr1"
          unfolding POST_dispatched[OF pass Inr] d
          by (auto split: sum.splits option.splits if_splits)
        with pass Inr d show ?thesis by auto
      qed
    qed
  qed
qed

lemma attach_sources_object:
  "object_document d \<Longrightarrow>
     \<exists>doc. d = JObject doc \<and> distinct (map fst doc) \<and>
       attach_sources d srcs = Inr (JObject (set_property sources_key (JArray srcs) doc))"
  by (auto simp: object_document_def)

lemma finish_Report_iff:
  "finish response srcs = Report r \<longleftrightarrow>
     (\<exists>doc. extract_report response = Inr (JObject doc) \<and> distinct (map fst doc) \<and>
        r = JObject (set_property sources_key (JArray srcs) doc))"
proof
  assume a: "finish response srcs = Report r"
  then obtain d where d: "extract_report response = Inr d"
    unfolding finish_def by (auto split: sum.splits)
  from attach_sources_object[OF extract_report_object[OF d], of srcs] a d
  show "\<exists>doc. extract_report response = Inr (JObject doc) \<and> distinct (map fst doc) \<and>
        r = JObject (set_property sources_key (JArray srcs) doc)"
    unfolding finish_def by auto
next
  assume "\<exists>doc. extract_report response = Inr (JObject doc) \<and> distinct (map fst doc) \<and>
        r = JObject (set_property sources_key (JArray srcs) doc)"
  then show "finish response srcs = Report r"
    unfolding finish_def by auto
qed

lemma get_set_property:
  "get_property (set_property k v props) k' = (if k' = k then Some v else get_property props k')"
  by (simp add: get_property_def set_property_def update_conv')

lemma set_property_others:
  "filter (\<lambda>kv. fst kv \<noteq> k) (set_property k v props) = filter (\<lambda>kv. fst kv \<noteq> k) props"
  unfolding set_property_def by (induction props) auto

lemma set_property_once:
  "distinct (map fst props) \<Longrightarrow> length (filter (\<lambda>kv. fst kv = k) (set_property k v props)) = 1"
  unfolding set_property_def
proof (induction props)
  case Nil
  show ?case by simp
next
  case (Cons a props)
  show ?case
  proof (cases "fst a = k")
    case True
    have "\<And>kv. kv \<in> set props \<Longrightarrow> fst kv \<noteq> k"
    proof
      fix kv assume "kv \<in> set props" "fst kv = k"
      then have "k \<in> set (map fst props)" by force
      with True Cons.prems show False by simp
    qed
    then have "filter (\<lambda>kv. fst kv = k) props = []"
      by (simp add: filter_empty_conv)
    with True show ?thesis by simp
  next
    case False
    with Cons show ?thesis by simp
  qed
qed

subsection \<open>The handler with and without its appends\<close>

lemma rateLimitCheck_logged_agrees:
  "appendFileSync rt RateLimitTimeLog \<Longrightarrow> rateLimitCheck_logged rt e = rateLimitCheck e"
  by (simp add: rateLimitCheck_logged_def rateLimitCheck_def split: option.splits)

lemma generateWithGemini_logged_agrees:
  "appendFileSync rt AdapterTimeLog \<Longrightarrow>
     generateWithGemini_logged rt e p m = generateWithGemini e p m"
  by (simp add: generateWithGemini_logged_def generateWithGemini_def Let_def split: option.splits)

lemma generateWithOpenAI_logged_agrees:
  "appendFileSync rt AdapterTimeLog \<Longrightarrow> appendFileSync rt AdapterResponseLog \<Longrightarrow>
     generateWithOpenAI_logged rt e p m = generateWithOpenAI e p m"
  by (simp add: generateWithOpenAI_logged_def generateWithOpenAI_def split: option.splits)

lemma generateWithAnthropic_logged_agrees:
  "appendFileSync rt AdapterTimeLog \<Longrightarrow> appendFileSync rt AdapterResponseLog \<Longrightarrow>
     generateWithAnthropic_logged rt e p m = generateWithAnthropic e p m"
  by (simp add: generateWithAnthropic_logged_def generateWithAnthropic_def split: option.splits)

lemma dispatch_logged_agrees:
  assumes "appendFileSync rt AdapterTimeLog" "appendFileSync rt AdapterResponseLog"
    "appendFileSync rt ModelTimeLog"
  shows "dispatch_logged rt e model p = dispatch e model p"
proof -
  have "switch_logged rt e model p = dispatch e model p"
    unfolding switch_logged_def dispatch_def
    by (simp add: generateWithGemini_logged_agrees generateWithOpenAI_logged_agrees
                  generateWithAnthropic_logged_agrees assms(1,2) split: option.splits)
  then show ?thesis
    unfolding dispatch_logged_def using assms(3) by (simp split: prod.splits)
qed

lemma finish_logged_agrees:
  assumes "appendFileSync rt OverallTimeLog" "\<forall>r. NextResponse_json rt r"
  shows "finish_logged rt response srcs = finish response srcs"
  using assms
  by (simp add: finish_logged_def finish_def extract_report_def split: option.splits sum.splits)

lemma POST_try_logged_agrees:
  assumes "all_appends_succeed rt" "\<forall>r. NextResponse_json rt r"
  shows "POST_try_logged rt e request = POST_try e request"
proof -
  from assms(1) have a: "appendFileSync rt RateLimitTimeLog" "appendFileSync rt AdapterTimeLog"
    "appendFileSync rt AdapterResponseLog" "appendFileSync rt ModelTimeLog"
    "appendFileSync rt ModelResponseLog" "appendFileSync rt OverallTimeLog"
    by (simp_all add: all_appends_succeed_def)
  show ?thesis
    unfolding POST_try_logged_def POST_try_def Let_def
      rateLimitCheck_logged_agrees[OF a(1)]
      dispatch_logged_agrees[OF a(2) a(3) a(4)]
      finish_logged_agrees[OF a(6) assms(2)] eqTrueI[OF a(5)] not_True_eq_False if_False
    by (rule refl)
qed

lemma POST_logged_agrees:
  assumes "all_appends_succeed rt" "\<forall>r. NextResponse_json rt r"
  shows "POST_logged rt e request = POST e request"
proof -
  from assms(1) have a: "appendFileSync rt ErrorLog" by (simp add: all_appends_succeed_def)
  show ?thesis
    unfolding POST_logged_def POST_def POST_try_logged_agrees[OF assms]
      eqTrueI[OF a] not_True_eq_False if_False
    by (rule refl)
qed



lemma POST_logged_dispatched:
  assumes "rateLimitCheck_logged rt e = (Inr None, tr)"
    "checkCatalog (CONFIG e) (selector_of b) = Inr model"
    "dispatch_logged rt e model (generateSystemPrompt (selectedResults b) (prompt b)) = (d, tr')"
  shows "POST_try_logged rt e (Some b) =
     (case d of
        Inl err \<Rightarrow> (Inl err, tr @ tr')
      | Inr None \<Rightarrow> (Inl NoResponseFromModel, tr @ tr')
      | Inr (Some response) \<Rightarrow>
          if response = [] then (Inl NoResponseFromModel, tr @ tr')
          else if \<not> appendFileSync rt ModelResponseLog then (Inl AppendError, tr @ tr')
          else (Inr (finish_logged rt response (sources b)), tr @ tr'))"
  using assms
  by (cases d) (simp_all add: POST_try_logged_def Let_def split: option.splits)

lemma rateLimitCheck_logged_cases:
  "rateLimitCheck_logged rt e = (Inl LimiterError, [LimitCall])
   \<or> rateLimitCheck_logged rt e = (Inl AppendError, [LimitCall])
   \<or> rateLimitCheck_logged rt e = (Inr (Some (Failure TooManyRequests)), [LimitCall])
   \<or> rateLimitCheck_logged rt e = (Inr None, [LimitCall])
   \<or> rateLimitCheck_logged rt e = (Inr None, [])"
  unfolding rateLimitCheck_logged_def by (auto split: option.splits)

lemma POST_logged_success:
  assumes "POST_logged rt e (Some b) = (Inr (Report r), tr)"
  shows "\<exists>model response tr0 tr1.
     rateLimitCheck_logged rt e = (Inr None, tr0) \<and>
     checkCatalog (CONFIG e) (selector_of b) = Inr model \<and>
     dispatch_logged rt e model (generateSystemPrompt (selectedResults b) (prompt b)) =
       (Inr (Some response), tr1) \<and>
     response \<noteq> [] \<and> appendFileSync rt ModelResponseLog \<and>
     finish_logged rt response (sources b) = Report r \<and> tr = tr0 @ tr1"
proof -
  from assms have t: "POST_try_logged rt e (Some b) = (Inr (Report r), tr)"
    unfolding POST_logged_def by (auto split: prod.splits sum.splits if_splits)
  obtain x tr0 where rl: "rateLimitCheck_logged rt e = (x, tr0)"
    by (cases "rateLimitCheck_logged rt e")
  show ?thesis
  proof (cases x)
    case (Inl err)
    with rl t show ?thesis by (simp add: POST_try_logged_def)
  next
    case (Inr answer)
    show ?thesis
    proof (cases answer)
      case (Some resp)
      with rl Inr rateLimitCheck_logged_cases[of rt e] have "resp = Failure TooManyRequests" by auto
      with rl Inr Some t show ?thesis by (simp add: POST_try_logged_def)
    next
      case None
      with rl Inr have pass: "rateLimitCheck_logged rt e = (Inr None, tr0)" by simp
      show ?thesis
      proof (cases "checkCatalog (CONFIG e) (selector_of b)")
        case (Inl f)
        with pass t show ?thesis by (simp add: POST_try_logged_def)
      next
        case (Inr model)
        let ?p = "generateSystemPrompt (selectedResults b) (prompt b)"
        obtain d tr1 where d: "dispatch_logged rt e model ?p = (d, tr1)"
          by (cases "dispatch_logged rt e model ?p")
        from t have "\<exists>response. d = Inr (Some response) \<and> response \<noteq> [] \<and>
            appendFileSync rt ModelResponseLog \<and>
            finish_logged rt response (sources b) = Report r \<and> tr = tr0 @ tr1"
          unfolding POST_logged_dispatched[OF pass Inr d]
          by (auto split: sum.splits option.splits if_splits)
        with pass Inr d show ?thesis by auto
      qed
    qed
  qed
qed

lemma finish_logged_Report:
  "finish_logged rt response srcs = Report r \<longleftrightarrow>
     (\<exists>span doc. json_span response = Some span \<and> JSON_parse span = Some (JObject doc) \<and>
        r = JObject (set_property sources_key (JArray srcs) doc) \<and>
        appendFileSync rt OverallTimeLog \<and> NextResponse_json rt r)"
proof
  assume a: "finish_logged rt response srcs = Report r"
  then obtain span d where s: "json_span response = Some span" and p: "JSON_parse span = Some d"
    unfolding finish_logged_def by (auto split: option.splits)
  then have "extract_report response = Inr d" by (simp add: extract_report_def)
  from attach_sources_object[OF extract_report_object[OF this], of srcs] obtain doc where
    doc: "d = JObject doc"
      "attach_sources d srcs = Inr (JObject (set_property sources_key (JArray srcs) doc))"
    by blast
  with a s p show "\<exists>span doc. json_span response = Some span \<and> JSON_parse span = Some (JObject doc) \<and>
        r = JObject (set_property sources_key (JArray srcs) doc) \<and>
        appendFileSync rt OverallTimeLog \<and> NextResponse_json rt r"
    unfolding finish_logged_def by (auto split: if_splits)
next
  assume "\<exists>span doc. json_span response = Some span \<and> JSON_parse span = Some (JObject doc) \<and>
        r = JObject (set_property sources_key (JArray srcs) doc) \<and>
        appendFileSync rt OverallTimeLog \<and> NextResponse_json rt r"
  then show "finish_logged rt response srcs = Report r"
    unfolding finish_logged_def by auto
qed

subsection \<open>The returned report\<close>

text \<open>
  C1, as the claim states it, fails: the handler does not look at the title or the sections
  of the parsed document. The completion "{}" is answered with status 200 and the document
  that holds the sources alone.
\<close>

theorem empty_document_counterexample:
  "POST (example_env ''{}'') (Some (example_body (Some ''google__gemini-flash''))) =
     (Inr (Report (JObject [(units ''sources'', JArray [])])),
      [GeminiCall geminiFlashModel (generateSystemPrompt [] [])]) \<and>
   \<not> well_formed_report (JObject [(units ''sources'', JArray [])]) \<and>
   fst (render (Report (JObject [(units ''sources'', JArray [])]))) = 200"
  by code_simp

text \<open>
  C1, amended. Every value that the handler returns as success is the JSON object parsed
  from the span between the first opening brace and the last closing brace of the
  completion of the model that the selector names, with the property \<open>sources\<close> set to the
  caller's list. Its title and sections are not checked: when the request has been
  dispatched, the completion is not empty, its span parses as an object, and the appends
  and the construction of the response after the dispatch succeed, that document is returned
  with status 200, whatever it holds.
\<close>

theorem returned_report_is_parsed_span:
  "(POST_logged rt e (Some b) = (Inr (Report r), tr) \<longrightarrow>
      (\<exists>model response tr' span doc.
          checkCatalog (CONFIG e) (selector_of b) = Inr model \<and>
          dispatch_logged rt e model (generateSystemPrompt (selectedResults b) (prompt b)) =
            (Inr (Some response), tr') \<and>
          json_span response = Some span \<and> JSON_parse span = Some (JObject doc) \<and>
          r = JObject (set_property sources_key (JArray (sources b)) doc))) \<and>
   (rateLimitCheck_logged rt e = (Inr None, tr0) \<and>
    checkCatalog (CONFIG e) (selector_of b) = Inr model \<and>
    dispatch_logged rt e model (generateSystemPrompt (selectedResults b) (prompt b)) =
      (Inr (Some response), tr1) \<and>
    response \<noteq> [] \<and> json_span response = Some span \<and> JSON_parse span = Some (JObject doc) \<and>
    appendFileSync rt ModelResponseLog \<and> appendFileSync rt OverallTimeLog \<and>
    NextResponse_json rt (JObject (set_property sources_key (JArray (sources b)) doc)) \<longrightarrow>
      POST_logged rt e (Some b) =
        (Inr (Report (JObject (set_property sources_key (JArray (sources b)) doc))), tr0 @ tr1) \<and>
      fst (render (Report (JObject (set_property sources_key (JArray (sources b)) doc)))) = 200)"
proof (intro conjI impI)
  assume a: "POST_logged rt e (Some b) = (Inr (Report r), tr)"
  from POST_logged_success[OF a] obtain model response tr1 where
    c: "checkCatalog (CONFIG e) (selector_of b) = Inr model"
    and d: "dispatch_logged rt e model (generateSystemPrompt (selectedResults b) (prompt b)) =
              (Inr (Some response), tr1)"
    and f: "finish_logged rt response (sources b) = Report r"
    by blast
  from f obtain span doc where "json_span response = Some span"
    "JSON_parse span = Some (JObject doc)"
    "r = JObject (set_property sources_key (JArray (sources b)) doc)"
    unfolding finish_logged_Report by blast
  with c d show "\<exists>model response tr' span doc.
          checkCatalog (CONFIG e) (selector_of b) = Inr model \<and>
          dispatch_logged rt e model (generateSystemPrompt (selectedResults b) (prompt b)) =
            (Inr (Some response), tr') \<and>
          json_span response = Some span \<and> JSON_parse span = Some (JObject doc) \<and>
          r = JObject (set_property sources_key (JArray (sources b)) doc)"
    by blast
next
  assume a: "rateLimitCheck_logged rt e = (Inr None, tr0) \<and>
    checkCatalog (CONFIG e) (selector_of b) = Inr model \<and>
    dispatch_logged rt e model (generateSystemPrompt (selectedResults b) (prompt b)) =
      (Inr (Some response), tr1) \<and>
    response \<noteq> [] \<and> json_span response = Some span \<and> JSON_parse span = Some (JObject doc) \<and>
    appendFileSync rt ModelResponseLog \<and> appendFileSync rt OverallTimeLog \<and>
    NextResponse_json rt (JObject (set_property sources_key (JArray (sources b)) doc))"
  then have f: "finish_logged rt response (sources b) =
      Report (JObject (set_property sources_key (JArray (sources b)) doc))"
    unfolding finish_logged_Report by blast
  from a have "POST_try_logged rt e (Some b) =
      (Inr (finish_logged rt response (sources b)), tr0 @ tr1)"
    using POST_logged_dispatched[of rt e tr0 b model "Inr (Some response)" tr1] by simp
  with f show "POST_logged rt e (Some b) =
        (Inr (Report (JObject (set_property sources_key (JArray (sources b)) doc))), tr0 @ tr1)"
    by (simp add: POST_logged_def)
  show "fst (render (Report (JObject (set_property sources_key (JArray (sources b)) doc)))) = 200"
    by simp
qed

theorem returned_report_witness:
  "POST_logged writable_runtime (example_env ''{}'') (Some (example_body (Some ''google__gemini-flash''))) =
     (Inr (Report (JObject [(units ''sources'', JArray [])])),
      [GeminiCall geminiFlashModel (generateSystemPrompt [] [])]) \<and>
   (\<exists>model response tr' span doc.
      checkCatalog (CONFIG (example_env ''{}''))
        (selector_of (example_body (Some ''google__gemini-flash''))) = Inr model \<and>
      dispatch_logged writable_runtime (example_env ''{}'') model
        (generateSystemPrompt (selectedResults (example_body (Some ''google__gemini-flash'')))
           (prompt (example_body (Some ''google__gemini-flash'')))) = (Inr (Some response), tr') \<and>
      json_span response = Some span \<and> JSON_parse span = Some (JObject doc) \<and>
      JObject [(units ''sources'', JArray [])] =
        JObject (set_property sources_key
                   (JArray (sources (example_body (Some ''google__gemini-flash'')))) doc)) \<and>
   json_span ''Sure: {} done'' = Some ''{}'' \<and> JSON_parse ''{}'' = Some (JObject []) \<and>
   \<not> well_formed_report (JObject (set_property sources_key (JArray (sources sourced_body)) [])) \<and>
   POST_logged writable_runtime (example_env ''Sure: {} done'') (Some sourced_body) =
     (Inr (Report (JObject (set_property sources_key (JArray (sources sourced_body)) []))),
      [] @ [GeminiCall geminiFlashModel (generateSystemPrompt [] [])])"
proof -
  let ?b = "example_body (Some ''google__gemini-flash'')"
  let ?p = "generateSystemPrompt [] []"
  have h1: "POST_logged writable_runtime (example_env ''{}'') (Some ?b) =
     (Inr (Report (JObject [(units ''sources'', JArray [])])), [GeminiCall geminiFlashModel ?p])"
    by code_simp
  from h1 returned_report_is_parsed_span[where rt = writable_runtime and e = "example_env ''{}''"
      and b = ?b and r = "JObject [(units ''sources'', JArray [])]"
      and tr = "[GeminiCall geminiFlashModel ?p]"]
  have c1: "\<exists>model response tr' span doc.
      checkCatalog (CONFIG (example_env ''{}'')) (selector_of ?b) = Inr model \<and>
      dispatch_logged writable_runtime (example_env ''{}'') model
        (generateSystemPrompt (selectedResults ?b) (prompt ?b)) = (Inr (Some response), tr') \<and>
      json_span response = Some span \<and> JSON_parse span = Some (JObject doc) \<and>
      JObject [(units ''sources'', JArray [])] =
        JObject (set_property sources_key (JArray (sources ?b)) doc)"
    by blast
  have h2: "rateLimitCheck_logged writable_runtime (example_env ''Sure: {} done'') = (Inr None, []) \<and>
      checkCatalog (CONFIG (example_env ''Sure: {} done'')) (selector_of sourced_body) =
        Inr (Some ''gemini-flash'') \<and>
      dispatch_logged writable_runtime (example_env ''Sure: {} done'') (Some ''gemini-flash'')
        (generateSystemPrompt (selectedResults sourced_body) (prompt sourced_body)) =
        (Inr (Some ''Sure: {} done''), [GeminiCall geminiFlashModel ?p]) \<and>
      ''Sure: {} done'' \<noteq> [] \<and> json_span ''Sure: {} done'' = Some ''{}'' \<and>
      JSON_parse ''{}'' = Some (JObject []) \<and>
      appendFileSync writable_runtime ModelResponseLog \<and> appendFileSync writable_runtime OverallTimeLog \<and>
      NextResponse_json writable_runtime
        (JObject (set_property sources_key (JArray (sources sourced_body)) []))"
    by code_simp
  from h2 returned_report_is_parsed_span[where rt = writable_runtime
      and e = "example_env ''Sure: {} done''" and b = sourced_body and ?tr0.0 = "[]"
      and model = "Some ''gemini-flash''" and response = "''Sure: {} done''"
      and ?tr1.0 = "[GeminiCall geminiFlashModel ?p]" and span = "''{}''" and doc = "[]"]
  have c2: "POST_logged writable_runtime (example_env ''Sure: {} done'') (Some sourced_body) =
     (Inr (Report (JObject (set_property sources_key (JArray (sources sourced_body)) []))),
      [] @ [GeminiCall geminiFlashModel ?p])"
    by blast
  have h3: "\<not> well_formed_report (JObject (set_property sources_key (JArray (sources sourced_body)) []))"
    by code_simp
  from h1 c1 h2 h3 c2 show ?thesis by blast
qed

text \<open>
  C8. On success the returned report is the extracted document with \<open>sources\<close> set to the
  caller's list as it is, order included. The property occurs once, so a \<open>sources\<close> value
  that the model itself emitted is gone. Every other property reads as in the extracted
  document, title, summary and sections among them, and the other properties keep their
  order.
\<close>

theorem sources_attached_verbatim:
  "POST e (Some b) = (Inr (Report r), tr) \<longrightarrow>
     (\<exists>response doc props.
        (\<exists>model tr'. dispatch e model (generateSystemPrompt (selectedResults b) (prompt b)) =
           (Inr (Some response), tr')) \<and>
        extract_report response = Inr (JObject doc) \<and>
        r = JObject props \<and>
        get_property props (units ''sources'') = Some (JArray (sources b)) \<and>
        length (filter (\<lambda>kv. fst kv = units ''sources'') props) = 1 \<and>
        (\<forall>k. k \<noteq> units ''sources'' \<longrightarrow> get_property props k = get_property doc k) \<and>
        get_property props (units ''title'') = get_property doc (units ''title'') \<and>
        get_property props (units ''summary'') = get_property doc (units ''summary'') \<and>
        get_property props (units ''sections'') = get_property doc (units ''sections'') \<and>
        filter (\<lambda>kv. fst kv \<noteq> units ''sources'') props =
          filter (\<lambda>kv. fst kv \<noteq> units ''sources'') doc)"
proof
  assume a: "POST e (Some b) = (Inr (Report r), tr)"
  from POST_success[OF a] obtain model response tr1 where
    d: "dispatch e model (generateSystemPrompt (selectedResults b) (prompt b)) = (Inr (Some response), tr1)"
    and f: "finish response (sources b) = Report r"
    by blast
  from f obtain doc where x: "extract_report response = Inr (JObject doc)"
    and dist: "distinct (map fst doc)"
    and r: "r = JObject (set_property sources_key (JArray (sources b)) doc)"
    unfolding finish_Report_iff by blast
  define props where "props = set_property sources_key (JArray (sources b)) doc"
  have k: "sources_key = units ''sources''" by (simp add: sources_key_def)
  have 1: "get_property props (units ''sources'') = Some (JArray (sources b))"
    by (simp add: props_def get_set_property k)
  have 2: "length (filter (\<lambda>kv. fst kv = units ''sources'') props) = 1"
    unfolding props_def k by (rule set_property_once[OF dist])
  have 3: "\<forall>k. k \<noteq> units ''sources'' \<longrightarrow> get_property props k = get_property doc k"
    by (simp add: props_def get_set_property k)
  have 4: "get_property props (units ''title'') = get_property doc (units ''title'')"
    "get_property props (units ''summary'') = get_property doc (units ''summary'')"
    "get_property props (units ''sections'') = get_property doc (units ''sections'')"
    by (simp_all add: props_def get_set_property k units_eq_iff)
  have 5: "filter (\<lambda>kv. fst kv \<noteq> units ''sources'') props =
          filter (\<lambda>kv. fst kv \<noteq> units ''sources'') doc"
    unfolding props_def k by (rule set_property_others)
  from d x r 1 2 3 4 5 show "\<exists>response doc props.
        (\<exists>model tr'. dispatch e model (generateSystemPrompt (selectedResults b) (prompt b)) =
           (Inr (Some response), tr')) \<and>
        extract_report response = Inr (JObject doc) \<and>
        r = JObject props \<and>
        get_property props (units ''sources'') = Some (JArray (sources b)) \<and>
        length (filter (\<lambda>kv. fst kv = units ''sources'') props) = 1 \<and>
        (\<forall>k. k \<noteq> units ''sources'' \<longrightarrow> get_property props k = get_property doc k) \<and>
        get_property props (units ''title'') = get_property doc (units ''title'') \<and>
        get_property props (units ''summary'') = get_property doc (units ''summary'') \<and>
        get_property props (units ''sections'') = get_property doc (units ''sections'') \<and>
        filter (\<lambda>kv. fst kv \<noteq> units ''sources'') props =
          filter (\<lambda>kv. fst kv \<noteq> units ''sources'') doc"
    unfolding props_def[symmetric] by blast
qed

theorem sources_attached_witness:
  "POST (example_env completion_with_sources) (Some sourced_body) =
     (Inr (Report sourced_report), [GeminiCall geminiFlashModel (generateSystemPrompt [] [])]) \<and>
   (\<exists>response doc props.
        (\<exists>model tr'. dispatch (example_env completion_with_sources) model
             (generateSystemPrompt (selectedResults sourced_body) (prompt sourced_body)) =
           (Inr (Some response), tr')) \<and>
        extract_report response = Inr (JObject doc) \<and>
        sourced_report = JObject props \<and>
        get_property props (units ''sources'') = Some (JArray (sources sourced_body)) \<and>
        length (filter (\<lambda>kv. fst kv = units ''sources'') props) = 1 \<and>
        (\<forall>k. k \<noteq> units ''sources'' \<longrightarrow> get_property props k = get_property doc k) \<and>
        get_property props (units ''title'') = get_property doc (units ''title'') \<and>
        get_property props (units ''summary'') = get_property doc (units ''summary'') \<and>
        get_property props (units ''sections'') = get_property doc (units ''sections'') \<and>
        filter (\<lambda>kv. fst kv \<noteq> units ''sources'') props =
          filter (\<lambda>kv. fst kv \<noteq> units ''sources'') doc)"
proof -
  have h: "POST (example_env completion_with_sources) (Some sourced_body) =
     (Inr (Report sourced_report), [GeminiCall geminiFlashModel (generateSystemPrompt [] [])])"
    by code_simp
  from h sources_attached_verbatim[of "example_env completion_with_sources" sourced_body
      sourced_report "[GeminiCall geminiFlashModel (generateSystemPrompt [] [])]"]
  show ?thesis by blast
qed

subsection \<open>Requests with an empty prompt\<close>

lemma dispatch_ignores_prompt:
  assumes "ignores_prompt e"
  shows "fst (dispatch e model p) = fst (dispatch e model q)"
proof -
  from assms obtain g c a where
    eqs: "generateContent e = (\<lambda>client p. g client)"
         "chat_completions_create e = (\<lambda>m p. c m)"
         "messages_create e = (\<lambda>m p. a m)"
    unfolding ignores_prompt_def by blast
  show ?thesis
  proof (cases model)
    case None
    then show ?thesis by (simp add: dispatch_def)
  next
    case (Some m)
    show ?thesis
      unfolding dispatch_def Some option.case
      by (simp add: generateWithGemini_def generateWithOpenAI_def generateWithAnthropic_def eqs)
  qed
qed

lemma dispatch_calls:
  "adapter_calls (snd (dispatch e model p)) = adapter_calls (snd (dispatch e model q))"
proof (cases model)
  case None
  then show ?thesis by (simp add: dispatch_def)
next
  case (Some m)
  show ?thesis
    unfolding dispatch_def Some option.case
    by (simp add: generateWithGemini_def generateWithOpenAI_def generateWithAnthropic_def
                  adapter_calls_def Let_def)
qed

lemma POST_after_dispatch:
  assumes "rateLimitCheck e = (Inr None, tr)" "checkCatalog (CONFIG e) (selector_of b) = Inr model"
  shows "POST e (Some b) =
     after_dispatch tr (sources b) (dispatch e model (generateSystemPrompt (selectedResults b) (prompt b)))"
  unfolding after_dispatch_def by (rule POST_dispatched[OF assms])

lemma after_dispatch_fst:
  "fst d = fst d' \<Longrightarrow> fst (after_dispatch tr srcs d) = fst (after_dispatch tr srcs d')"
  by (cases d; cases d') (auto simp: after_dispatch_def split: sum.splits option.splits)

lemma after_dispatch_calls:
  "adapter_calls (snd (after_dispatch tr srcs d)) = adapter_calls tr + adapter_calls (snd d)"
  by (cases d) (auto simp: after_dispatch_def adapter_calls_def split: sum.splits option.splits)

lemma selector_of_update:
  "selector_of (b\<lparr>prompt := p, selectedResults := arts\<rparr>) = selector_of b"
  by (simp add: selector_of_def)

lemma POST_prompt_independent:
  assumes "ignores_prompt e"
  shows "fst (POST e (Some (b\<lparr>prompt := p, selectedResults := arts\<rparr>))) = fst (POST e (Some b))"
proof -
  let ?b = "b\<lparr>prompt := p, selectedResults := arts\<rparr>"
  obtain x tr where rl: "rateLimitCheck e = (x, tr)" by (cases "rateLimitCheck e")
  show ?thesis
  proof (cases x)
    case (Inl err)
    with rl show ?thesis by (simp add: POST_limiter_throws)
  next
    case (Inr answer)
    show ?thesis
    proof (cases answer)
      case (Some resp)
      with rl Inr show ?thesis by (simp add: POST_rate_limited)
    next
      case None
      with rl Inr have pass: "rateLimitCheck e = (Inr None, tr)" by simp
      show ?thesis
      proof (cases "checkCatalog (CONFIG e) (selector_of b)")
        case (Inl f)
        then have "checkCatalog (CONFIG e) (selector_of ?b) = Inl f"
          by (simp add: selector_of_update)
        with Inl pass show ?thesis by (simp add: POST_catalog_failure)
      next
        case (Inr model)
        then have c: "checkCatalog (CONFIG e) (selector_of ?b) = Inr model"
          by (simp add: selector_of_update)
        show ?thesis
          unfolding POST_after_dispatch[OF pass Inr] POST_after_dispatch[OF pass c]
          using after_dispatch_fst[OF dispatch_ignores_prompt[OF assms]] by simp
      qed
    qed
  qed
qed

lemma POST_calls_independent:
  "adapter_calls (snd (POST e (Some (b\<lparr>prompt := p, selectedResults := arts\<rparr>)))) =
   adapter_calls (snd (POST e (Some b)))"
proof -
  let ?b = "b\<lparr>prompt := p, selectedResults := arts\<rparr>"
  obtain x tr where rl: "rateLimitCheck e = (x, tr)" by (cases "rateLimitCheck e")
  show ?thesis
  proof (cases x)
    case (Inl err)
    with rl show ?thesis by (simp add: POST_limiter_throws)
  next
    case (Inr answer)
    show ?thesis
    proof (cases answer)
      case (Some resp)
      with rl Inr show ?thesis by (simp add: POST_rate_limited)
    next
      case None
      with rl Inr have pass: "rateLimitCheck e = (Inr None, tr)" by simp
      show ?thesis
      proof (cases "checkCatalog (CONFIG e) (selector_of b)")
        case (Inl f)
        then have "checkCatalog (CONFIG e) (selector_of ?b) = Inl f"
          by (simp add: selector_of_update)
        with Inl pass show ?thesis by (simp add: POST_catalog_failure)
      next
        case (Inr model)
        then have c: "checkCatalog (CONFIG e) (selector_of ?b) = Inr model"
          by (simp add: selector_of_update)
        show ?thesis
          unfolding POST_after_dispatch[OF pass Inr] POST_after_dispatch[OF pass c]
            after_dispatch_calls
          using dispatch_calls by simp
      qed
    qed
  qed
qed

lemma POST_limiter_consulted:
  "LimitCall \<in> set (snd (POST e (Some b))) \<longleftrightarrow> rateLimits_enabled (CONFIG e)"
proof -
  have "LimitCall \<in> set (snd (rateLimitCheck e)) \<longleftrightarrow> rateLimits_enabled (CONFIG e)"
    using rateLimitCheck_cases[of e] by auto
  then show ?thesis
    using POST_trace[of e b] by auto
qed

lemma example_env_ignores_prompt: "ignores_prompt (limiting_env completion)"
  unfolding ignores_prompt_def limiting_env_def example_env_def
  by (intro exI[of _ "\<lambda>_. Some completion"] exI[of _ "\<lambda>_. Some (Some completion)"]) simp

text \<open>
  C6, as the claim states it, fails: the handler has no validation step. A request with an
  empty prompt passes the rate-limit check (the limiter is consulted), the catalog checks
  and the adapter call, and is answered with a report.
\<close>

theorem empty_prompt_counterexample:
  "prompt (example_body (Some ''google__gemini-flash'')) = [] \<and>
   POST (limiting_env ''{}'') (Some (example_body (Some ''google__gemini-flash''))) =
     (Inr (Report (JObject [(units ''sources'', JArray [])])),
      [LimitCall, GeminiCall geminiFlashModel (generateSystemPrompt [] [])])"
  by code_simp

text \<open>
  C6, amended. A request with an empty prompt is not rejected; the handler validates
  neither the prompt nor the source documents. For every request the limiter is consulted
  exactly when rate limiting is enabled, the number of adapter calls does not depend on the
  prompt or on the source documents, and with a provider whose answer does not depend on
  the prompt the response is the same for every prompt and every sequence of source
  documents, the empty ones included. An empty sequence of source documents is legal.
\<close>

theorem no_validation_of_prompt:
  "(ignores_prompt e \<longrightarrow>
      fst (POST e (Some (b\<lparr>prompt := p, selectedResults := arts\<rparr>))) = fst (POST e (Some b))) \<and>
   adapter_calls (snd (POST e (Some (b\<lparr>prompt := p, selectedResults := arts\<rparr>)))) =
     adapter_calls (snd (POST e (Some b))) \<and>
   (LimitCall \<in> set (snd (POST e (Some b))) \<longleftrightarrow> rateLimits_enabled (CONFIG e))"
proof (intro conjI impI)
  assume "ignores_prompt e"
  then show "fst (POST e (Some (b\<lparr>prompt := p, selectedResults := arts\<rparr>))) = fst (POST e (Some b))"
    by (rule POST_prompt_independent)
next
  show "adapter_calls (snd (POST e (Some (b\<lparr>prompt := p, selectedResults := arts\<rparr>)))) =
     adapter_calls (snd (POST e (Some b)))"
    by (rule POST_calls_independent)
  show "LimitCall \<in> set (snd (POST e (Some b))) \<longleftrightarrow> rateLimits_enabled (CONFIG e)"
    by (rule POST_limiter_consulted)
qed

theorem no_validation_witness:
  "ignores_prompt (limiting_env completion_with_sources) \<and>
   fst (POST (limiting_env completion_with_sources) (Some asking_body)) = Inr (Report sourced_report) \<and>
   fst (POST (limiting_env completion_with_sources)
          (Some (asking_body\<lparr>prompt := [], selectedResults := []\<rparr>))) = Inr (Report sourced_report) \<and>
   adapter_calls (snd (POST (limiting_env completion_with_sources)
          (Some (asking_body\<lparr>prompt := [], selectedResults := []\<rparr>)))) = 1"
proof -
  have h: "ignores_prompt (limiting_env completion_with_sources)"
    by (rule example_env_ignores_prompt)
  have v: "fst (POST (limiting_env completion_with_sources) (Some asking_body)) = Inr (Report sourced_report)"
    by code_simp
  have n: "adapter_calls (snd (POST (limiting_env completion_with_sources) (Some asking_body))) = 1"
    by code_simp
  note t = no_validation_of_prompt[where e = "limiting_env completion_with_sources" and b = asking_body
      and p = "[]" and arts = "[]"]
  from t h v have 1: "fst (POST (limiting_env completion_with_sources)
          (Some (asking_body\<lparr>prompt := [], selectedResults := []\<rparr>))) = Inr (Report sourced_report)"
    by simp
  from t n have 2: "adapter_calls (snd (POST (limiting_env completion_with_sources)
          (Some (asking_body\<lparr>prompt := [], selectedResults := []\<rparr>)))) = 1"
    by simp
  from h v 1 2 show ?thesis by blast
qed

subsection \<open>Failures\<close>






subsection \<open>The prompt builder\<close>

lemma occur_in_order_ConsI:
  "occur_in_order xs post \<Longrightarrow> occur_in_order (x # xs) (pre @ x @ post)"
  by auto

lemma occur_in_order_prepend: "occur_in_order xs s \<Longrightarrow> occur_in_order xs (pre @ s)"
proof (cases xs)
  case Nil
  then show ?thesis by simp
next
  case (Cons x xs')
  assume "occur_in_order xs s"
  with Cons obtain p q where s: "s = p @ x @ q" and q: "occur_in_order xs' q" by auto
  have "occur_in_order (x # xs') ((pre @ p) @ x @ q)"
    using q by (rule occur_in_order_ConsI)
  with Cons s show ?thesis by simp
qed

lemma occur_in_order_append:
  "occur_in_order xs s \<Longrightarrow> occur_in_order ys t \<Longrightarrow> occur_in_order (xs @ ys) (s @ t)"
proof (induction xs arbitrary: s)
  case Nil
  then show ?case by (simp add: occur_in_order_prepend)
next
  case (Cons x xs)
  from Cons.prems(1) obtain p q where s: "s = p @ x @ q" and q: "occur_in_order xs q" by auto
  from Cons.IH[OF q Cons.prems(2)] have "occur_in_order (x # (xs @ ys)) (p @ x @ (q @ t))"
    by (rule occur_in_order_ConsI)
  with s show ?case by simp
qed

lemma occur_in_order_extend: "occur_in_order xs s \<Longrightarrow> occur_in_order xs (s @ t)"
  using occur_in_order_append[of xs s "[]" t] by simp

lemma render_article_fields: "occur_in_order (article_fields a) (render_article a)"
  unfolding render_article_def article_fields_def
  by (intro occur_in_order_ConsI) simp

lemma js_join_Cons:
  "js_join sep (x # xs) = x @ (if xs = [] then [] else sep @ js_join sep xs)"
  by (cases xs) simp_all

lemma joined_articles_fields:
  "occur_in_order (concat (map article_fields articles)) (js_join sep (map render_article articles))"
proof (induction articles)
  case Nil
  show ?case by simp
next
  case (Cons a articles)
  have "occur_in_order (concat (map article_fields articles))
          (if map render_article articles = [] then [] else sep @ js_join sep (map render_article articles))"
    using Cons.IH by (auto simp: occur_in_order_prepend)
  with render_article_fields[of a]
  have "occur_in_order (article_fields a @ concat (map article_fields articles))
          (render_article a @
           (if map render_article articles = [] then [] else sep @ js_join sep (map render_article articles)))"
    by (rule occur_in_order_append)
  then show ?case by (simp add: js_join_Cons)
qed

lemma prompt_fields_in_order:
  "occur_in_order (concat (map article_fields articles)) (generateSystemPrompt articles userPrompt)"
proof -
  have "occur_in_order (concat (map article_fields articles))
      ((prompt_opening @ userPrompt @ prompt_guidelines) @
       js_join ''\<newline>'' (map render_article articles) @
       (prompt_format_heading @ prompt_output_contract @ prompt_markdown_rules @ prompt_ordinal_rule))"
    by (intro occur_in_order_prepend occur_in_order_extend joined_articles_fields)
  then show ?thesis by (simp add: generateSystemPrompt_def)
qed

lemma prompt_quotes_request:
  \<open>sublist (''"'' @ userPrompt @ ''"'') (generateSystemPrompt articles userPrompt)\<close>
proof -
  have o: \<open>prompt_opening = butlast prompt_opening @ ''"''\<close> by code_simp
  have g: \<open>prompt_guidelines = ''"'' @ tl prompt_guidelines\<close> by code_simp
  have "generateSystemPrompt articles userPrompt =
      prompt_opening @ userPrompt @ prompt_guidelines @
      (js_join ''\<newline>'' (map render_article articles) @
       prompt_format_heading @ prompt_output_contract @ prompt_markdown_rules @ prompt_ordinal_rule)"
    by (simp add: generateSystemPrompt_def)
  also have \<open>\<dots> = butlast prompt_opening @ (''"'' @ userPrompt @ ''"'') @
      (tl prompt_guidelines @
       js_join ''\<newline>'' (map render_article articles) @
       prompt_format_heading @ prompt_output_contract @ prompt_markdown_rules @ prompt_ordinal_rule)\<close>
    by (subst o, subst g) simp
  finally show ?thesis by (metis sublist_appendI)
qed

lemma prompt_has_contract:
  "sublist prompt_output_contract (generateSystemPrompt articles userPrompt)"
proof -
  have "generateSystemPrompt articles userPrompt =
      (prompt_opening @ userPrompt @ prompt_guidelines @
       js_join ''\<newline>'' (map render_article articles) @ prompt_format_heading) @
      prompt_output_contract @ (prompt_markdown_rules @ prompt_ordinal_rule)"
    by (simp add: generateSystemPrompt_def)
  then show ?thesis by (metis sublist_appendI)
qed

lemma prompt_has_ordinal_rule:
  \<open>sublist ''Important: Do not use phrases like "Source 1" or "According to Source 2".''
     (generateSystemPrompt articles userPrompt)\<close>
proof -
  have \<open>prefix ''Important: Do not use phrases like "Source 1" or "According to Source 2".''
          prompt_ordinal_rule\<close>
    by code_simp
  then obtain rest where r: \<open>prompt_ordinal_rule =
      ''Important: Do not use phrases like "Source 1" or "According to Source 2".'' @ rest\<close>
    unfolding prefix_def by blast
  have "generateSystemPrompt articles userPrompt =
      (prompt_opening @ userPrompt @ prompt_guidelines @
       js_join ''\<newline>'' (map render_article articles) @ prompt_format_heading @
       prompt_output_contract @ prompt_markdown_rules) @ prompt_ordinal_rule"
    by (simp add: generateSystemPrompt_def)
  then show ?thesis by (subst (asm) r) (metis sublist_appendI)
qed

lemma contract_parses: "JSON_parse prompt_output_contract = Some contract_shape"
  by code_simp

lemma POST_prompt_events:
  "\<forall>ev \<in> set (snd (POST e (Some b))).
     ev \<noteq> LimitCall \<longrightarrow> event_prompt ev = Some (generateSystemPrompt (selectedResults b) (prompt b))"
proof -
  have "\<forall>ev \<in> set (snd (rateLimitCheck e)). ev = LimitCall"
    using rateLimitCheck_cases[of e] by auto
  then show ?thesis
    using POST_trace[of e b] by auto
qed

text \<open>
  C10. The prompt is a function of the source documents and the user request alone: equal
  inputs give equal prompts, and the text that an adapter receives is this prompt whatever
  the environment is. For every input the prompt contains the user request between double
  quotes; the title, URL and content of every source document, one after the other in the
  order of the input; the output contract, a JSON text with a title, a summary and a list
  of sections that have a title and a content; and the sentence that forbids phrases like
  "Source 1".
\<close>

theorem prompt_builder_contents:
  \<open>(articles = articles' \<and> userPrompt = userPrompt' \<longrightarrow>
      generateSystemPrompt articles userPrompt = generateSystemPrompt articles' userPrompt') \<and>
   sublist (''"'' @ userPrompt @ ''"'') (generateSystemPrompt articles userPrompt) \<and>
   occur_in_order (concat (map article_fields articles)) (generateSystemPrompt articles userPrompt) \<and>
   sublist prompt_output_contract (generateSystemPrompt articles userPrompt) \<and>
   JSON_parse prompt_output_contract = Some contract_shape \<and>
   sublist ''Important: Do not use phrases like "Source 1" or "According to Source 2".''
     (generateSystemPrompt articles userPrompt) \<and>
   (\<forall>ev \<in> set (snd (POST e (Some b))).
      ev \<noteq> LimitCall \<longrightarrow>
      event_prompt ev = Some (generateSystemPrompt (selectedResults b) (prompt b)))\<close>
proof (intro conjI impI)
  assume "articles = articles' \<and> userPrompt = userPrompt'"
  then show "generateSystemPrompt articles userPrompt = generateSystemPrompt articles' userPrompt'"
    by simp
next
  show \<open>sublist (''"'' @ userPrompt @ ''"'') (generateSystemPrompt articles userPrompt)\<close>
    by (rule prompt_quotes_request)
  show "occur_in_order (concat (map article_fields articles)) (generateSystemPrompt articles userPrompt)"
    by (rule prompt_fields_in_order)
  show "sublist prompt_output_contract (generateSystemPrompt articles userPrompt)"
    by (rule prompt_has_contract)
  show "JSON_parse prompt_output_contract = Some contract_shape"
    by (rule contract_parses)
  show \<open>sublist ''Important: Do not use phrases like "Source 1" or "According to Source 2".''
     (generateSystemPrompt articles userPrompt)\<close>
    by (rule prompt_has_ordinal_rule)
  show "\<forall>ev \<in> set (snd (POST e (Some b))).
      ev \<noteq> LimitCall \<longrightarrow>
      event_prompt ev = Some (generateSystemPrompt (selectedResults b) (prompt b))"
    by (rule POST_prompt_events)
qed

theorem prompt_builder_witness:
  \<open>generateSystemPrompt (selectedResults asking_body) (prompt asking_body) =
     generateSystemPrompt (selectedResults asking_body) (prompt asking_body) \<and>
   sublist (''"'' @ prompt asking_body @ ''"'')
     (generateSystemPrompt (selectedResults asking_body) (prompt asking_body)) \<and>
   concat (map article_fields (selectedResults asking_body)) =
     [''Alpha'', ''https://a.example'', ''First text.'', ''Beta'', ''https://b.example'', ''Second text.''] \<and>
   occur_in_order (concat (map article_fields (selectedResults asking_body)))
     (generateSystemPrompt (selectedResults asking_body) (prompt asking_body)) \<and>
   GeminiCall geminiFlashModel (generateSystemPrompt (selectedResults asking_body) (prompt asking_body))
     \<in> set (snd (POST (limiting_env ''{}'') (Some asking_body))) \<and>
   event_prompt
     (GeminiCall geminiFlashModel (generateSystemPrompt (selectedResults asking_body) (prompt asking_body))) =
     Some (generateSystemPrompt (selectedResults asking_body) (prompt asking_body))\<close>
proof -
  let ?p = "generateSystemPrompt (selectedResults asking_body) (prompt asking_body)"
  note t = prompt_builder_contents[where articles = "selectedResults asking_body"
      and articles' = "selectedResults asking_body" and userPrompt = "prompt asking_body"
      and userPrompt' = "prompt asking_body" and e = "limiting_env ''{}''" and b = asking_body]
  from t have 1: "?p = ?p" by blast
  from t have 2: \<open>sublist (''"'' @ prompt asking_body @ ''"'') ?p\<close> by blast
  have 3: "concat (map article_fields (selectedResults asking_body)) =
     [''Alpha'', ''https://a.example'', ''First text.'', ''Beta'', ''https://b.example'', ''Second text.'']"
    by (simp add: asking_body_def article_fields_def)
  from t have 4: "occur_in_order (concat (map article_fields (selectedResults asking_body))) ?p"
    by blast
  have 5: "snd (POST (limiting_env ''{}'') (Some asking_body)) = [LimitCall, GeminiCall geminiFlashModel ?p]"
    by code_simp
  then have 6: "GeminiCall geminiFlashModel ?p \<in> set (snd (POST (limiting_env ''{}'') (Some asking_body)))"
    by simp
  from t 6 have 7: "event_prompt (GeminiCall geminiFlashModel ?p) = Some ?p"
    by blast
  from 1 2 3 4 6 7 show ?thesis by blast
qed

end
